theory Spec2Isabelle
  imports Main "HOL-Library.Sublist" "HOL-Library.Multiset"
begin

section \<open>app/models.py: the data model\<close>

text \<open>
  The three string enumerations of \<^verbatim>\<open>models.py\<close> are datatypes; the ORM classes are
  records, one field per column that the modelled functions read or write. Fields that
  several classes share by name (\<^verbatim>\<open>id\<close>) carry a prefix. The timestamp columns
  (\<^verbatim>\<open>created_at\<close>, \<^verbatim>\<open>updated_at\<close>) are filled by the clock and read by none of the
  functions below; they are left out. A nullable column is an \<open>option\<close>, and so is
  the \<^verbatim>\<open>id\<close> of a vulnerability, \<^verbatim>\<open>None\<close> until the session inserts the row;
  \<^verbatim>\<open>current_state_code\<close> is one as well, since \<^verbatim>\<open>get_state_for_event\<close> handles a
  missing code explicitly. The member \<^verbatim>\<open>Environment.PROD\<close> is \<open>PROD_env\<close>: the bare name
  is taken by the notation for products.
\<close>

datatype environment = DEV | STAGE | PROD_env

datatype snapshot_type = BEFORE | AFTER

datatype severity = CRITICAL | HIGH | MEDIUM | LOW

record patch_event =
  pe_id :: nat
  service_id :: nat
  environment :: environment
  ami_id :: string
  patch_date :: "nat \<times> nat \<times> nat"
  pe_notes :: "string option"
  dev_evidence_available :: bool
  stage_cr_summary :: "string option"
  prod_cr_summary :: "string option"
  current_state_code :: "string option"

record scan_snapshot =
  snap_id :: nat
  patch_event_id :: nat
  snapshot_type :: snapshot_type

record vulnerability =
  vuln_id :: "nat option"
  scan_snapshot_id :: nat
  synthetic_id :: string
  cve :: "string option"
  plugin_id :: "string option"
  severity :: severity
  host :: string
  description :: "string option"

text \<open>
  Python exceptions, as values. Each carries the message it is raised with; for an
  exception raised inside the standard library the message is the interpreter's, without
  the quotation marks and the values it appends.
\<close>

datatype error =
    ValueError string
  | OverflowError string
  | AttributeError string
  | IndexError string

text \<open>Sequencing of calls that may raise: the first exception ends the computation.\<close>

definition and_then :: "error + 'a \<Rightarrow> ('a \<Rightarrow> error + 'b) \<Rightarrow> error + 'b" where
  "and_then r f = (case r of Inl e \<Rightarrow> Inl e | Inr x \<Rightarrow> f x)"


section \<open>app/state.py: the lifecycle state machine\<close>

definition DEV_EVIDENCE_CAPTURED :: string where
  "DEV_EVIDENCE_CAPTURED = ''DEV_EVIDENCE_CAPTURED''"

definition DEV_VERIFIED :: string where
  "DEV_VERIFIED = ''DEV_VERIFIED''"

definition STAGE_CR_READY :: string where
  "STAGE_CR_READY = ''STAGE_CR_READY''"

definition STAGE_PATCHED :: string where
  "STAGE_PATCHED = ''STAGE_PATCHED''"

definition PROD_CR_READY :: string where
  "PROD_CR_READY = ''PROD_CR_READY''"

definition PROD_PATCHED :: string where
  "PROD_PATCHED = ''PROD_PATCHED''"

definition CLOSED :: string where
  "CLOSED = ''CLOSED''"

text \<open>
  The seven concrete subclasses of \<^verbatim>\<open>PatchState\<close>. An instance has no field but
  \<^verbatim>\<open>code\<close>, which its constructor fixes, so a class is a constructor of the datatype.
\<close>

datatype patch_state =
    DevEvidenceCapturedState
  | DevVerifiedState
  | StageCrReadyState
  | StagePatchedState
  | ProdCrReadyState
  | ProdPatchedState
  | ClosedState

fun code :: "patch_state \<Rightarrow> string" where
  "code DevEvidenceCapturedState = DEV_EVIDENCE_CAPTURED"
| "code DevVerifiedState = DEV_VERIFIED"
| "code StageCrReadyState = STAGE_CR_READY"
| "code StagePatchedState = STAGE_PATCHED"
| "code ProdCrReadyState = PROD_CR_READY"
| "code ProdPatchedState = PROD_PATCHED"
| "code ClosedState = CLOSED"

text \<open>
  The private helpers of the source (\<^verbatim>\<open>_has_dev_evidence\<close>, \<^verbatim>\<open>_build_vulnerability\<close>,
  ...) lose their leading underscore, which no identifier can start with here.
\<close>

definition has_dev_evidence :: "patch_event \<Rightarrow> bool" where
  "has_dev_evidence context = dev_evidence_available context"

fun allowed_transitions :: "patch_state \<Rightarrow> patch_event \<Rightarrow> string list" where
  "allowed_transitions DevEvidenceCapturedState context = [DEV_VERIFIED]"
| "allowed_transitions DevVerifiedState context =
     (if \<not> has_dev_evidence context then [] else [STAGE_CR_READY])"
| "allowed_transitions StageCrReadyState context =
     (if \<not> has_dev_evidence context then [] else [STAGE_PATCHED])"
| "allowed_transitions StagePatchedState context =
     (if \<not> has_dev_evidence context then [] else [PROD_CR_READY])"
| "allowed_transitions ProdCrReadyState context =
     (if \<not> has_dev_evidence context then [] else [PROD_PATCHED])"
| "allowed_transitions ProdPatchedState context = [CLOSED]"
| "allowed_transitions ClosedState context = []"

definition can_transition_to :: "patch_state \<Rightarrow> string \<Rightarrow> patch_event \<Rightarrow> bool" where
  "can_transition_to self target_code context =
     (target_code \<in> set (allowed_transitions self context))"

text \<open>The hook \<^verbatim>\<open>on_enter\<close> has an empty body in the base class and no override.\<close>

definition on_enter :: "patch_state \<Rightarrow> patch_event \<Rightarrow> patch_event" where
  "on_enter self context = context"

text \<open>The dictionary of \<^verbatim>\<open>get_state_for_event\<close>, as an association list read by \<open>map_of\<close>.\<close>

definition state_mapping :: "(string \<times> patch_state) list" where
  "state_mapping =
     [(DEV_EVIDENCE_CAPTURED, DevEvidenceCapturedState),
      (DEV_VERIFIED, DevVerifiedState),
      (STAGE_CR_READY, StageCrReadyState),
      (STAGE_PATCHED, StagePatchedState),
      (PROD_CR_READY, ProdCrReadyState),
      (PROD_PATCHED, ProdPatchedState),
      (CLOSED, ClosedState)]"

text \<open>
  \<^verbatim>\<open>event.current_state_code or DEV_EVIDENCE_CAPTURED\<close>: Python's \<^verbatim>\<open>or\<close> takes the
  right operand when the left one is \<^verbatim>\<open>None\<close> or the empty string.
\<close>

definition state_code_or_default :: "string option \<Rightarrow> string" where
  "state_code_or_default c =
     (case c of None \<Rightarrow> DEV_EVIDENCE_CAPTURED
      | Some s \<Rightarrow> if s = [] then DEV_EVIDENCE_CAPTURED else s)"

definition get_state_for_event :: "patch_event \<Rightarrow> patch_state" where
  "get_state_for_event event =
     (let state_code = state_code_or_default (current_state_code event)
      in case map_of state_mapping state_code of
           None \<Rightarrow> DevEvidenceCapturedState
         | Some state_cls \<Rightarrow> state_cls)"

text \<open>
  \<^verbatim>\<open>transition_patch_event\<close> mutates its argument and may raise. The model returns the
  event as the call leaves it together with the outcome, \<open>Inl\<close> the exception raised or
  \<open>Inr ()\<close> for a normal return.
\<close>

definition transition_patch_event ::
  "patch_event \<Rightarrow> string \<Rightarrow> patch_event \<times> (error + unit)" where
  "transition_patch_event event target_code =
     (let current_state = get_state_for_event event in
      if target_code = CLOSED \<and> current_state_code event \<noteq> Some PROD_PATCHED
      then (event, Inl (ValueError ''Cannot close patch event unless PROD is patched.''))
      else if \<not> can_transition_to current_state target_code event
      then (event, Inl (ValueError
              (''Transition from '' @ code current_state @ '' to '' @ target_code
                 @ '' is not allowed.'')))
      else let event' = event\<lparr>current_state_code := Some target_code\<rparr>
           in (on_enter current_state event', Inr ()))"

text \<open>
  The codes from \<^verbatim>\<open>STAGE_CR_READY\<close> to the end of the chain, in chain order, and the
  seven codes of the chain.
\<close>

definition at_or_after_stage_cr_ready :: "string list" where
  "at_or_after_stage_cr_ready =
     [STAGE_CR_READY, STAGE_PATCHED, PROD_CR_READY, PROD_PATCHED, CLOSED]"

definition lifecycle_codes :: "string list" where
  "lifecycle_codes = map fst state_mapping"


section \<open>app/services/diff.py: the evidence diff engine\<close>

text \<open>
  \<^verbatim>\<open>after_ids\<close> is the set comprehension over the AFTER records, the result the list
  comprehension over the BEFORE records with its condition.
\<close>

definition compute_fixed_vulnerabilities ::
  "vulnerability list \<Rightarrow> vulnerability list \<Rightarrow> vulnerability list" where
  "compute_fixed_vulnerabilities before_vulnerabilities after_vulnerabilities =
     (let after_ids = synthetic_id ` set after_vulnerabilities
      in [v. v \<leftarrow> before_vulnerabilities, synthetic_id v \<notin> after_ids])"

text \<open>
  \<^verbatim>\<open>collections.Counter\<close> over an iterable: a dictionary that holds, for each element
  seen, how many times it was seen, built one element at a time.
\<close>

definition counter_add :: "'a \<Rightarrow> ('a \<rightharpoonup> nat) \<Rightarrow> ('a \<rightharpoonup> nat)" where
  "counter_add x c = c(x \<mapsto> (case c x of None \<Rightarrow> 1 | Some n \<Rightarrow> Suc n))"

definition Counter :: "'a list \<Rightarrow> ('a \<rightharpoonup> nat)" where
  "Counter xs = fold counter_add xs Map.empty"

text \<open>\<^verbatim>\<open>counter.get(key, default)\<close>.\<close>

definition dict_get :: "('a \<rightharpoonup> 'b) \<Rightarrow> 'a \<Rightarrow> 'b \<Rightarrow> 'b" where
  "dict_get d k dflt = (case d k of None \<Rightarrow> dflt | Some v \<Rightarrow> v)"

text \<open>Iterating over the enumeration \<^verbatim>\<open>Severity\<close> yields its members in definition order.\<close>

definition Severity_members :: "severity list" where
  "Severity_members = [CRITICAL, HIGH, MEDIUM, LOW]"

definition count_by_severity :: "vulnerability list \<Rightarrow> (severity \<rightharpoonup> nat)" where
  "count_by_severity vulnerabilities =
     (let counter = Counter (map severity vulnerabilities)
      in map_of (map (\<lambda>sev. (sev, dict_get counter sev 0)) Severity_members))"


section \<open>Python built-ins used by the snapshot generator\<close>

subsection \<open>Formatting integers\<close>

text \<open>\<^verbatim>\<open>str(n)\<close> for a natural number: its decimal digits.\<close>

fun decimal :: "nat \<Rightarrow> string" where
  "decimal n =
     (if n < 10 then [char_of (48 + n)]
      else decimal (n div 10) @ [char_of (48 + n mod 10)])"

text \<open>
  The format specifications \<^verbatim>\<open>{n}\<close> (width 0) and \<^verbatim>\<open>{n:0wd}\<close>: the sign first, then
  the digits padded with zeros on the left up to the width \<open>w\<close>, the sign counted in.
\<close>

definition format_d :: "nat \<Rightarrow> int \<Rightarrow> string" where
  "format_d width n =
     (let sign = (if n < 0 then ''-'' else []);
          digits = decimal (nat \<bar>n\<bar>)
      in sign @ replicate (width - length sign - length digits) CHR ''0'' @ digits)"

subsection \<open>Floating-point numbers\<close>

text \<open>
  A Python \<^verbatim>\<open>float\<close> is an IEEE 754 binary64 number: \<open>Finite m e\<close> stands for
  \<open>m * 2 ^ e\<close>, \<open>Infinity True\<close> for \<^verbatim>\<open>inf\<close>, \<open>Infinity False\<close> for \<^verbatim>\<open>-inf\<close>. The two
  zeros are not told apart: no operation below depends on the sign of a zero.
\<close>

datatype pyfloat = Finite int int | Infinity bool | NaN

text \<open>\<^verbatim>\<open>int.bit_length\<close>: the number of binary digits of the absolute value.\<close>

fun bit_length_nat :: "nat \<Rightarrow> nat" where
  "bit_length_nat n = (if n = 0 then 0 else Suc (bit_length_nat (n div 2)))"

definition bit_length :: "int \<Rightarrow> nat" where
  "bit_length m = bit_length_nat (nat \<bar>m\<bar>)"

text \<open>\<open>m / 2 ^ s\<close> rounded to the nearest integer, a tie to the even one.\<close>

definition round_half_even :: "int \<Rightarrow> nat \<Rightarrow> int" where
  "round_half_even m s =
     (let q = m div 2 ^ s; r = m mod 2 ^ s
      in if 2 * r < 2 ^ s then q
         else if 2 ^ s < 2 * r then q + 1
         else if even q then q else q + 1)"

text \<open>
  The binary64 number nearest to the exact value \<open>m * 2 ^ e\<close> (round to nearest, ties
  to even): at most 53 significant bits, no exponent below \<open>-1074\<close> (the subnormal
  numbers), and infinity from \<open>2 ^ 1024\<close> on.
\<close>

definition to_double :: "int \<Rightarrow> int \<Rightarrow> pyfloat" where
  "to_double m e =
     (let s = max (int (bit_length m) - 53) (- 1074 - e);
          m' = (if s \<le> 0 then m else round_half_even m (nat s));
          e' = (if s \<le> 0 then e else e + s)
      in if 1024 < int (bit_length m') + e' then Infinity (0 < m') else Finite m' e')"

text \<open>The conversion of an \<^verbatim>\<open>int\<close> operand to \<^verbatim>\<open>float\<close>, which raises when out of range.\<close>

definition float_of_int :: "int \<Rightarrow> error + pyfloat" where
  "float_of_int n =
     (case to_double n 0 of
        Infinity _ \<Rightarrow> Inl (OverflowError ''int too large to convert to float'')
      | f \<Rightarrow> Inr f)"

fun float_mul :: "pyfloat \<Rightarrow> pyfloat \<Rightarrow> pyfloat" where
  "float_mul (Finite m1 e1) (Finite m2 e2) = to_double (m1 * m2) (e1 + e2)"
| "float_mul NaN _ = NaN"
| "float_mul _ NaN = NaN"
| "float_mul (Infinity s1) (Infinity s2) = Infinity (s1 = s2)"
| "float_mul (Infinity s) (Finite m e) = (if m = 0 then NaN else Infinity (s = (0 < m)))"
| "float_mul (Finite m e) (Infinity s) = (if m = 0 then NaN else Infinity (s = (0 < m)))"

text \<open>\<^verbatim>\<open>n * x\<close> for an \<^verbatim>\<open>int\<close> \<open>n\<close> and a \<^verbatim>\<open>float\<close> \<open>x\<close>.\<close>

definition int_times_float :: "int \<Rightarrow> pyfloat \<Rightarrow> error + pyfloat" where
  "int_times_float n x = and_then (float_of_int n) (\<lambda>f. Inr (float_mul f x))"

text \<open>\<^verbatim>\<open>int(x)\<close> for a \<^verbatim>\<open>float\<close>: truncation towards zero.\<close>

fun int_of_float :: "pyfloat \<Rightarrow> error + int" where
  "int_of_float (Finite m e) =
     Inr (if 0 \<le> e then m * 2 ^ nat e
          else if 0 \<le> m then m div 2 ^ nat (- e)
          else - ((- m) div 2 ^ nat (- e)))"
| "int_of_float (Infinity _) = Inl (OverflowError ''cannot convert float infinity to integer'')"
| "int_of_float NaN = Inl (ValueError ''cannot convert float NaN to integer'')"

text \<open>The default ratios \<^verbatim>\<open>0.3\<close> and \<^verbatim>\<open>0.7\<close>: the binary64 numbers nearest to 3/10 and 7/10.\<close>

definition ratio_0_3 :: pyfloat where
  "ratio_0_3 = Finite 5404319552844595 (- 54)"

definition ratio_0_7 :: pyfloat where
  "ratio_0_7 = Finite 6305039478318694 (- 53)"

subsection \<open>The module \<^verbatim>\<open>random\<close>\<close>

text \<open>
  The generator is a source of raw draws, passed in and handed back. \<^verbatim>\<open>_randbelow(n)\<close>
  takes one draw and reduces it below \<open>n\<close>; an exhausted source draws 0. Every number
  below \<open>n\<close> is the outcome for some source, so a statement about all sources is one
  about all outcomes of the draws.
\<close>

type_synonym rng = "nat list"

definition randbelow :: "nat \<Rightarrow> rng \<Rightarrow> nat \<times> rng" where
  "randbelow n rng = (case rng of [] \<Rightarrow> (0, []) | r # rng' \<Rightarrow> (r mod n, rng'))"

definition randint :: "int \<Rightarrow> int \<Rightarrow> rng \<Rightarrow> error + (int \<times> rng)" where
  "randint a b rng =
     (if b < a then Inl (ValueError ''empty range for randrange()'')
      else let (r, rng') = randbelow (nat (b + 1 - a)) rng in Inr (a + int r, rng'))"

definition choice :: "'a list \<Rightarrow> rng \<Rightarrow> error + ('a \<times> rng)" where
  "choice seq rng =
     (if seq = [] then Inl (IndexError ''Cannot choose from an empty sequence'')
      else let (i, rng') = randbelow (length seq) rng in Inr (seq ! i, rng'))"

text \<open>
  \<^verbatim>\<open>random.sample\<close>, selection without replacement: at each step one element of the
  pool is drawn, and the last element of the pool takes its place.
\<close>

fun sample_pool :: "'a list \<Rightarrow> nat \<Rightarrow> rng \<Rightarrow> 'a list \<times> rng" where
  "sample_pool pool 0 rng = ([], rng)"
| "sample_pool pool (Suc k) rng =
     (let (j, rng') = randbelow (length pool) rng;
          (rest, rng'') = sample_pool (butlast (pool[j := last pool])) k rng'
      in (pool ! j # rest, rng''))"

definition sample :: "'a list \<Rightarrow> int \<Rightarrow> rng \<Rightarrow> error + ('a list \<times> rng)" where
  "sample population k rng =
     (if 0 \<le> k \<and> k \<le> int (length population)
      then Inr (sample_pool population (nat k) rng)
      else Inl (ValueError ''Sample larger than population or is negative''))"


section \<open>The database session\<close>

text \<open>
  What the generator uses of the SQLAlchemy session, over the three tables it touches.
  Primary keys come from a counter per table, as an auto-incrementing column gives them.
  Changes are written to the tables where the source registers them with the session: in
  each function below the next query or the final commit flushes them, and a function
  that raises hands no session back, as nothing of it was committed.
\<close>

record session =
  patch_events :: "patch_event list"
  scan_snapshots :: "scan_snapshot list"
  vulnerabilities :: "vulnerability list"
  next_snapshot_id :: nat
  next_vulnerability_id :: nat

text \<open>
  \<^verbatim>\<open>db.query(ScanSnapshot).filter(patch_event_id == ..., snapshot_type == ...)\<close>, the rows
  read by \<^verbatim>\<open>.all()\<close>; \<^verbatim>\<open>.first()\<close> is the first of them, or \<^verbatim>\<open>None\<close>.
\<close>

definition query_snapshots :: "session \<Rightarrow> nat \<Rightarrow> snapshot_type \<Rightarrow> scan_snapshot list" where
  "query_snapshots db event_id tag =
     filter (\<lambda>s. patch_event_id s = event_id \<and> snapshot_type s = tag) (scan_snapshots db)"

definition first :: "'a list \<Rightarrow> 'a option" where
  "first rows = (case rows of [] \<Rightarrow> None | r # _ \<Rightarrow> Some r)"

text \<open>The relationships \<^verbatim>\<open>snapshot.vulnerabilities\<close> and \<^verbatim>\<open>snapshot.patch_event\<close>.\<close>

definition snapshot_vulnerabilities :: "session \<Rightarrow> scan_snapshot \<Rightarrow> vulnerability list" where
  "snapshot_vulnerabilities db snapshot =
     filter (\<lambda>v. scan_snapshot_id v = snap_id snapshot) (vulnerabilities db)"

definition snapshot_patch_event :: "session \<Rightarrow> scan_snapshot \<Rightarrow> patch_event option" where
  "snapshot_patch_event db snapshot =
     find (\<lambda>e. pe_id e = patch_event_id snapshot) (patch_events db)"

text \<open>
  \<^verbatim>\<open>db.delete(snapshot)\<close>: the row goes, and with it the vulnerabilities it owns (the
  relationship is declared with \<^verbatim>\<open>cascade="all, delete-orphan"\<close>).
\<close>

definition db_delete :: "session \<Rightarrow> scan_snapshot \<Rightarrow> session" where
  "db_delete db snapshot =
     db\<lparr>scan_snapshots := filter (\<lambda>s. snap_id s \<noteq> snap_id snapshot) (scan_snapshots db),
        vulnerabilities :=
          filter (\<lambda>v. scan_snapshot_id v \<noteq> snap_id snapshot) (vulnerabilities db)\<rparr>"

text \<open>
  \<^verbatim>\<open>snapshot = ScanSnapshot(patch_event_id=..., snapshot_type=...)\<close>, \<^verbatim>\<open>db.add(snapshot)\<close>
  and \<^verbatim>\<open>db.flush()\<close>: the row is inserted and the object has its \<^verbatim>\<open>id\<close>.
\<close>

definition db_add_snapshot :: "session \<Rightarrow> nat \<Rightarrow> snapshot_type \<Rightarrow> scan_snapshot \<times> session" where
  "db_add_snapshot db event_id tag =
     (let snapshot = \<lparr>snap_id = next_snapshot_id db, patch_event_id = event_id,
                       snapshot_type = tag\<rparr>
      in (snapshot,
          db\<lparr>scan_snapshots := scan_snapshots db @ [snapshot],
             next_snapshot_id := Suc (next_snapshot_id db)\<rparr>))"

text \<open>\<^verbatim>\<open>db.add(vuln)\<close>: the row is inserted with the next \<^verbatim>\<open>id\<close>.\<close>

definition db_add_vulnerability :: "session \<Rightarrow> vulnerability \<Rightarrow> session" where
  "db_add_vulnerability db vuln =
     db\<lparr>vulnerabilities :=
          vulnerabilities db @ [vuln\<lparr>vuln_id := Some (next_vulnerability_id db)\<rparr>],
        next_vulnerability_id := Suc (next_vulnerability_id db)\<rparr>"


section \<open>app/services/synthetic\_data.py: the snapshot generator\<close>

definition generate_synthetic_cve :: "rng \<Rightarrow> error + (string \<times> rng)" where
  "generate_synthetic_cve rng =
     and_then (randint 2090 2099 rng) (\<lambda>(year, rng1).
     and_then (randint 1000 99999 rng1) (\<lambda>(ident, rng2).
     Inr (''CVE-'' @ format_d 0 year @ ''-'' @ format_d 5 ident, rng2)))"

definition generate_synthetic_plugin_id :: "rng \<Rightarrow> error + (string \<times> rng)" where
  "generate_synthetic_plugin_id rng =
     and_then (randint 10000 99999 rng) (\<lambda>(n, rng1).
     Inr (''PLUG-'' @ format_d 0 n, rng1))"

text \<open>\<^verbatim>\<open>environment.value.lower()\<close>.\<close>

fun env_prefix :: "environment \<Rightarrow> string" where
  "env_prefix DEV = ''dev''"
| "env_prefix STAGE = ''stage''"
| "env_prefix PROD_env = ''prod''"

definition generate_synthetic_host :: "environment \<Rightarrow> rng \<Rightarrow> error + (string \<times> rng)" where
  "generate_synthetic_host env rng =
     and_then (randint 1 9 rng) (\<lambda>(index, rng1).
     Inr (env_prefix env @ ''-synthetic-'' @ format_d 2 index, rng1))"

definition choose_severity :: "rng \<Rightarrow> error + (severity \<times> rng)" where
  "choose_severity rng =
     (let choices = [CRITICAL, HIGH, HIGH, MEDIUM, MEDIUM, LOW, LOW, LOW]
      in choice choices rng)"

text \<open>
  \<^verbatim>\<open>snapshot.patch_event.environment\<close> raises \<^verbatim>\<open>AttributeError\<close> when the snapshot's
  event is not in the database (the relationship is \<^verbatim>\<open>None\<close>). The draws are made in
  the order the source evaluates them: severity, CVE, plug-in identifier, host.
\<close>

definition build_vulnerability ::
  "session \<Rightarrow> scan_snapshot \<Rightarrow> int \<Rightarrow> rng \<Rightarrow> error + (vulnerability \<times> rng)" where
  "build_vulnerability db snapshot index rng =
     (case snapshot_patch_event db snapshot of
        None \<Rightarrow> Inl (AttributeError ''NoneType object has no attribute environment'')
      | Some event \<Rightarrow>
          and_then (choose_severity rng) (\<lambda>(sev, rng1).
          and_then (generate_synthetic_cve rng1) (\<lambda>(cve_text, rng2).
          and_then (generate_synthetic_plugin_id rng2) (\<lambda>(plugin_text, rng3).
          and_then (generate_synthetic_host (environment event) rng3) (\<lambda>(host_text, rng4).
          Inr (\<lparr>vuln_id = None,
                scan_snapshot_id = snap_id snapshot,
                synthetic_id = ''VULN-'' @ format_d 4 (int (snap_id snapshot)) @ ''-''
                                 @ format_d 4 index,
                cve = Some cve_text,
                plugin_id = Some plugin_text,
                severity = sev,
                host = host_text,
                description =
                  Some ''Synthetic vulnerability used for demonstration only.''\<rparr>,
               rng4))))))"

definition delete_existing_snapshots :: "session \<Rightarrow> nat \<Rightarrow> snapshot_type \<Rightarrow> session" where
  "delete_existing_snapshots db event_id tag =
     (let existing = query_snapshots db event_id tag
      in fold (\<lambda>snapshot d. db_delete d snapshot) existing db)"

text \<open>
  The loop \<^verbatim>\<open>for index in range(...): vuln = _build_vulnerability(snapshot, index);
  db.add(vuln)\<close> of both generators, over the list of indices.
\<close>

fun add_built_vulnerabilities ::
  "session \<Rightarrow> scan_snapshot \<Rightarrow> int list \<Rightarrow> rng \<Rightarrow> error + (session \<times> rng)" where
  "add_built_vulnerabilities db snapshot [] rng = Inr (db, rng)"
| "add_built_vulnerabilities db snapshot (index # indices) rng =
     and_then (build_vulnerability db snapshot index rng) (\<lambda>(vuln, rng1).
     add_built_vulnerabilities (db_add_vulnerability db vuln) snapshot indices rng1)"

text \<open>\<^verbatim>\<open>range(1, n + 1)\<close> is the list \<open>[1..n]\<close>, empty when \<open>n < 1\<close>.\<close>

definition generate_before_snapshot ::
  "session \<Rightarrow> patch_event \<Rightarrow> int \<Rightarrow> rng \<Rightarrow> error + (scan_snapshot \<times> session \<times> rng)" where
  "generate_before_snapshot db patch_event vulnerability_count rng =
     (let db1 = delete_existing_snapshots db (pe_id patch_event) BEFORE;
          (snapshot, db2) = db_add_snapshot db1 (pe_id patch_event) BEFORE
      in and_then (add_built_vulnerabilities db2 snapshot [1..vulnerability_count] rng)
           (\<lambda>(db3, rng1). Inr (snapshot, db3, rng1)))"

text \<open>
  The two bounds of \<^verbatim>\<open>generate_after_snapshot\<close>, \<^verbatim>\<open>min_remaining\<close> and
  \<^verbatim>\<open>max_remaining\<close>, in the order the source computes them.
\<close>

definition remaining_bounds :: "int \<Rightarrow> pyfloat \<Rightarrow> pyfloat \<Rightarrow> error + (int \<times> int)" where
  "remaining_bounds total' min_remaining_ratio max_remaining_ratio =
     and_then (and_then (int_times_float total' min_remaining_ratio) int_of_float) (\<lambda>lo.
     let min_remaining = max 1 lo in
     and_then (and_then (int_times_float total' max_remaining_ratio) int_of_float) (\<lambda>hi.
     let max_remaining = max min_remaining hi in
     Inr (min_remaining, max_remaining)))"

text \<open>The copy of a BEFORE record into the new snapshot (the constructor call of the last loop).\<close>

definition carry_over :: "scan_snapshot \<Rightarrow> vulnerability \<Rightarrow> vulnerability" where
  "carry_over snapshot before_vuln =
     \<lparr>vuln_id = None,
      scan_snapshot_id = snap_id snapshot,
      synthetic_id = synthetic_id before_vuln,
      cve = cve before_vuln,
      plugin_id = plugin_id before_vuln,
      severity = severity before_vuln,
      host = host before_vuln,
      description = description before_vuln\<rparr>"

definition generate_after_snapshot ::
  "session \<Rightarrow> patch_event \<Rightarrow> pyfloat \<Rightarrow> pyfloat \<Rightarrow> rng
     \<Rightarrow> error + (scan_snapshot \<times> session \<times> rng)" where
  "generate_after_snapshot db patch_event min_remaining_ratio max_remaining_ratio rng =
     (let db1 = delete_existing_snapshots db (pe_id patch_event) AFTER;
          before_snapshot = first (query_snapshots db1 (pe_id patch_event) BEFORE)
      in if before_snapshot = None
            \<or> snapshot_vulnerabilities db1 (the before_snapshot) = []
         then
           let fallback_count = 10;
               (snapshot, db2) = db_add_snapshot db1 (pe_id patch_event) AFTER
           in and_then (add_built_vulnerabilities db2 snapshot [1..fallback_count] rng)
                (\<lambda>(db3, rng1). Inr (snapshot, db3, rng1))
         else
           let before_vulns = snapshot_vulnerabilities db1 (the before_snapshot);
               total' = int (length before_vulns)
           in and_then (remaining_bounds total' min_remaining_ratio max_remaining_ratio)
                (\<lambda>(min_remaining, max_remaining).
              and_then (randint min_remaining max_remaining rng)
                (\<lambda>(remaining_count, rng1).
              and_then (sample before_vulns remaining_count rng1)
                (\<lambda>(remaining_vulns, rng2).
              let (snapshot, db2) = db_add_snapshot db1 (pe_id patch_event) AFTER;
                  db3 = fold (\<lambda>before_vuln d.
                              db_add_vulnerability d (carry_over snapshot before_vuln))
                          remaining_vulns db2
              in Inr (snapshot, db3, rng2)))))"

text \<open>
  The tables the functions are called on: primary keys of snapshots are unique and below
  the counter, and no vulnerability refers to a snapshot key not yet given out.
\<close>

definition session_ok :: "session \<Rightarrow> bool" where
  "session_ok db =
     (distinct (map snap_id (scan_snapshots db))
      \<and> list_all (\<lambda>s. snap_id s < next_snapshot_id db) (scan_snapshots db)
      \<and> list_all (\<lambda>v. scan_snapshot_id v < next_snapshot_id db) (vulnerabilities db))"


text \<open>
  The six fields of a vulnerability that \<^verbatim>\<open>generate_after_snapshot\<close> copies: what a
  record of the AFTER snapshot shares with the BEFORE record it was copied from.
\<close>

definition finding ::
  "vulnerability \<Rightarrow> string \<times> string option \<times> string option \<times> severity \<times> string \<times> string option" where
  "finding v = (synthetic_id v, cve v, plugin_id v, severity v, host v, description v)"

text \<open>The comparison \<^verbatim>\<open>x <= 0\<close> on a \<^verbatim>\<open>float\<close>.\<close>

fun float_le_zero :: "pyfloat \<Rightarrow> bool" where
  "float_le_zero (Finite m e) = (m \<le> 0)"
| "float_le_zero (Infinity s) = (\<not> s)"
| "float_le_zero NaN = False"


section \<open>Sample data\<close>

text \<open>A patch event, findings and a database, for evaluating the functions above.\<close>

definition example_event :: patch_event where
  "example_event =
     \<lparr>pe_id = 1, service_id = 1, environment = DEV, ami_id = ''ami-0001'',
      patch_date = (2025, 1, 15), pe_notes = None, dev_evidence_available = False,
      stage_cr_summary = None, prod_cr_summary = None,
      current_state_code = Some DEV_EVIDENCE_CAPTURED\<rparr>"

definition example_vulnerability :: "nat \<Rightarrow> nat \<Rightarrow> severity \<Rightarrow> vulnerability" where
  "example_vulnerability snapshot_key index sev =
     \<lparr>vuln_id = Some index,
      scan_snapshot_id = snapshot_key,
      synthetic_id = ''VULN-'' @ format_d 4 (int snapshot_key) @ ''-'' @ format_d 4 (int index),
      cve = Some ''CVE-2090-01000'',
      plugin_id = Some ''PLUG-10000'',
      severity = sev,
      host = ''dev-synthetic-01'',
      description = Some ''Synthetic vulnerability used for demonstration only.''\<rparr>"

text \<open>
  A database that holds \<open>example_event\<close>, its BEFORE snapshot with key 1 and \<open>n\<close>
  vulnerabilities of that snapshot.
\<close>

definition example_session :: "nat \<Rightarrow> session" where
  "example_session n =
     \<lparr>patch_events = [example_event],
      scan_snapshots = [\<lparr>snap_id = 1, patch_event_id = 1, snapshot_type = BEFORE\<rparr>],
      vulnerabilities = map (\<lambda>i. example_vulnerability 1 i LOW) [1..<Suc n],
      next_snapshot_id = 2,
      next_vulnerability_id = Suc n\<rparr>"


section \<open>Properties of the lifecycle state machine\<close>

lemmas state_code_defs =
  DEV_EVIDENCE_CAPTURED_def DEV_VERIFIED_def STAGE_CR_READY_def STAGE_PATCHED_def
  PROD_CR_READY_def PROD_PATCHED_def CLOSED_def

lemma map_of_state_mapping_code: "map_of state_mapping (code s) = Some s"
  by (cases s) (simp_all add: state_mapping_def state_code_defs)

lemma get_state_for_event_known:
  "current_state_code event = Some (code s) \<Longrightarrow> get_state_for_event event = s"
  by (cases s) (simp_all add: get_state_for_event_def state_code_or_default_def
        state_mapping_def state_code_defs)

lemma get_state_for_event_unknown:
  assumes "current_state_code event \<notin> Some ` set lifecycle_codes"
  shows "get_state_for_event event = DevEvidenceCapturedState"
proof (cases "current_state_code event")
  case None
  then show ?thesis
    by (simp add: get_state_for_event_def state_code_or_default_def state_mapping_def
        state_code_defs)
next
  case (Some c)
  with assms have "c \<notin> set lifecycle_codes" by auto
  then have "map_of state_mapping c = None"
    by (simp add: lifecycle_codes_def map_of_eq_None_iff)
  moreover have "map_of state_mapping DEV_EVIDENCE_CAPTURED = Some DevEvidenceCapturedState"
    by (simp add: state_mapping_def)
  ultimately show ?thesis using Some
    by (simp add: get_state_for_event_def state_code_or_default_def)
qed

lemma transition_patch_event_rejected:
  "snd (transition_patch_event event target_code) \<noteq> Inr ()
     \<Longrightarrow> fst (transition_patch_event event target_code) = event"
  by (simp add: transition_patch_event_def Let_def split: if_splits)

lemma close_rejected:
  "current_state_code event \<noteq> Some PROD_PATCHED \<Longrightarrow>
     transition_patch_event event CLOSED =
       (event, Inl (ValueError ''Cannot close patch event unless PROD is patched.''))"
  by (simp add: transition_patch_event_def Let_def)

text \<open>
  C1, as stated, fails: in the state \<^verbatim>\<open>PROD_PATCHED\<close> an event without evidence is
  still offered \<^verbatim>\<open>CLOSED\<close>, which lies after \<^verbatim>\<open>STAGE_CR_READY\<close> in the chain.
\<close>

theorem allowed_transitions_guard_counterexample:
  "\<not> dev_evidence_available (example_event\<lparr>current_state_code := Some PROD_PATCHED\<rparr>)
   \<and> allowed_transitions
       (get_state_for_event (example_event\<lparr>current_state_code := Some PROD_PATCHED\<rparr>))
       (example_event\<lparr>current_state_code := Some PROD_PATCHED\<rparr>) = [CLOSED]
   \<and> CLOSED \<in> set at_or_after_stage_cr_ready
   \<and> transition_patch_event (example_event\<lparr>current_state_code := Some PROD_PATCHED\<rparr>) CLOSED
       = (example_event\<lparr>current_state_code := Some CLOSED\<rparr>, Inr ())"
  by (simp add: example_event_def at_or_after_stage_cr_ready_def get_state_for_event_def
      state_code_or_default_def state_mapping_def transition_patch_event_def
      can_transition_to_def on_enter_def state_code_defs)

text \<open>
  C1, amended: for an event without evidence, every state but \<^verbatim>\<open>PROD_PATCHED\<close> offers
  no target from \<^verbatim>\<open>STAGE_CR_READY\<close> to the end of the chain, \<^verbatim>\<open>CLOSED\<close> included:
  \<^verbatim>\<open>DEV_EVIDENCE_CAPTURED\<close> offers \<^verbatim>\<open>DEV_VERIFIED\<close> and the five others offer nothing.
  \<^verbatim>\<open>PROD_PATCHED\<close> offers \<^verbatim>\<open>CLOSED\<close>, with or without evidence.
\<close>

theorem allowed_transitions_without_evidence:
  "(\<not> dev_evidence_available event \<and> s \<noteq> ProdPatchedState \<longrightarrow>
      set (allowed_transitions s event) \<inter> set at_or_after_stage_cr_ready = {}
      \<and> allowed_transitions s event
          = (if s = DevEvidenceCapturedState then [DEV_VERIFIED] else []))
   \<and> allowed_transitions ProdPatchedState event = [CLOSED]
   \<and> at_or_after_stage_cr_ready
       = [STAGE_CR_READY, STAGE_PATCHED, PROD_CR_READY, PROD_PATCHED, CLOSED]"
proof (intro conjI impI)
  assume h: "\<not> dev_evidence_available event \<and> s \<noteq> ProdPatchedState"
  then show "allowed_transitions s event
               = (if s = DevEvidenceCapturedState then [DEV_VERIFIED] else [])"
    by (cases s) (simp_all add: has_dev_evidence_def)
  with h show "set (allowed_transitions s event) \<inter> set at_or_after_stage_cr_ready = {}"
    by (simp add: at_or_after_stage_cr_ready_def state_code_defs)
next
  show "allowed_transitions ProdPatchedState event = [CLOSED]"
    by simp
next
  show "at_or_after_stage_cr_ready
          = [STAGE_CR_READY, STAGE_PATCHED, PROD_CR_READY, PROD_PATCHED, CLOSED]"
    by (rule at_or_after_stage_cr_ready_def)
qed

theorem allowed_transitions_without_evidence_witness:
  "\<not> dev_evidence_available example_event
   \<and> DevVerifiedState \<noteq> ProdPatchedState
   \<and> set (allowed_transitions DevVerifiedState example_event)
       \<inter> set at_or_after_stage_cr_ready = {}
   \<and> allowed_transitions DevVerifiedState example_event = []
   \<and> allowed_transitions DevEvidenceCapturedState example_event = [DEV_VERIFIED]
   \<and> allowed_transitions ProdPatchedState example_event = [CLOSED]
   \<and> allowed_transitions ProdPatchedState (example_event\<lparr>dev_evidence_available := True\<rparr>)
       = [CLOSED]"
  using allowed_transitions_without_evidence [of example_event DevVerifiedState]
    allowed_transitions_without_evidence [of example_event DevEvidenceCapturedState]
    allowed_transitions_without_evidence
      [of "example_event\<lparr>dev_evidence_available := True\<rparr>" ProdPatchedState]
  by (simp add: example_event_def)

text \<open>
  C2: a transition to \<^verbatim>\<open>CLOSED\<close> is rejected by the standalone check, with that check's
  message, from every stored code but \<^verbatim>\<open>PROD_PATCHED\<close>, whatever the transition table
  would say; from \<^verbatim>\<open>PROD_PATCHED\<close> it succeeds and stores \<^verbatim>\<open>CLOSED\<close>.
\<close>

theorem transition_to_closed:
  "(current_state_code event \<noteq> Some PROD_PATCHED \<longrightarrow>
      transition_patch_event event CLOSED =
        (event, Inl (ValueError ''Cannot close patch event unless PROD is patched.'')))
   \<and> (current_state_code event = Some PROD_PATCHED \<longrightarrow>
      transition_patch_event event CLOSED =
        (event\<lparr>current_state_code := Some CLOSED\<rparr>, Inr ()))"
proof (intro conjI impI)
  assume "current_state_code event \<noteq> Some PROD_PATCHED"
  then show "transition_patch_event event CLOSED =
        (event, Inl (ValueError ''Cannot close patch event unless PROD is patched.''))"
    by (rule close_rejected)
next
  assume stored: "current_state_code event = Some PROD_PATCHED"
  then have "get_state_for_event event = ProdPatchedState"
    using get_state_for_event_known [of event ProdPatchedState] by simp
  with stored show "transition_patch_event event CLOSED =
        (event\<lparr>current_state_code := Some CLOSED\<rparr>, Inr ())"
    by (simp add: transition_patch_event_def Let_def can_transition_to_def on_enter_def)
qed

theorem transition_to_closed_witness:
  "current_state_code example_event \<noteq> Some PROD_PATCHED
   \<and> transition_patch_event example_event CLOSED =
       (example_event, Inl (ValueError ''Cannot close patch event unless PROD is patched.''))
   \<and> current_state_code (example_event\<lparr>current_state_code := Some PROD_PATCHED\<rparr>)
       = Some PROD_PATCHED
   \<and> transition_patch_event (example_event\<lparr>current_state_code := Some PROD_PATCHED\<rparr>) CLOSED
       = (example_event\<lparr>current_state_code := Some CLOSED\<rparr>, Inr ())"
  using transition_to_closed [of example_event]
    transition_to_closed [of "example_event\<lparr>current_state_code := Some PROD_PATCHED\<rparr>"]
  by (simp add: example_event_def state_code_defs)

text \<open>
  C9: when the stored code is missing, empty or none of the seven codes, the state
  resolved is \<^verbatim>\<open>DEV_EVIDENCE_CAPTURED\<close> and its transitions are offered. The check on
  \<^verbatim>\<open>CLOSED\<close> compares the stored code, and a rejected attempt leaves the stored code as
  it was; only the accepted transition, to \<^verbatim>\<open>DEV_VERIFIED\<close>, writes one.
  \<open>get_state_for_event\<close> and \<open>allowed_transitions\<close> read the event and hand none back.
\<close>

theorem unknown_state_code_defaults:
  assumes "current_state_code event \<notin> Some ` set lifecycle_codes"
  shows "get_state_for_event event = DevEvidenceCapturedState
     \<and> allowed_transitions (get_state_for_event event) event
         = allowed_transitions DevEvidenceCapturedState event
     \<and> allowed_transitions (get_state_for_event event) event = [DEV_VERIFIED]
     \<and> transition_patch_event event CLOSED =
         (event, Inl (ValueError ''Cannot close patch event unless PROD is patched.''))
     \<and> (target_code \<noteq> DEV_VERIFIED \<longrightarrow>
           fst (transition_patch_event event target_code) = event
           \<and> snd (transition_patch_event event target_code) \<noteq> Inr ())
     \<and> transition_patch_event event DEV_VERIFIED =
         (event\<lparr>current_state_code := Some DEV_VERIFIED\<rparr>, Inr ())"
proof -
  have st: "get_state_for_event event = DevEvidenceCapturedState"
    using assms by (rule get_state_for_event_unknown)
  have "PROD_PATCHED \<in> set lifecycle_codes"
    by (simp add: lifecycle_codes_def state_mapping_def)
  with assms have stored: "current_state_code event \<noteq> Some PROD_PATCHED"
    by auto
  have closed: "transition_patch_event event CLOSED =
         (event, Inl (ValueError ''Cannot close patch event unless PROD is patched.''))"
    using stored by (rule close_rejected)
  have other: "fst (transition_patch_event event target_code) = event
           \<and> snd (transition_patch_event event target_code) \<noteq> Inr ()"
    if "target_code \<noteq> DEV_VERIFIED"
    using that st by (simp add: transition_patch_event_def Let_def can_transition_to_def)
  have verified: "transition_patch_event event DEV_VERIFIED =
         (event\<lparr>current_state_code := Some DEV_VERIFIED\<rparr>, Inr ())"
    using st
    by (simp add: transition_patch_event_def Let_def can_transition_to_def on_enter_def
        state_code_defs)
  from st closed other verified show ?thesis by simp
qed

theorem unknown_state_code_defaults_witness:
  "current_state_code (example_event\<lparr>current_state_code := Some ''PATCHED''\<rparr>)
     \<notin> Some ` set lifecycle_codes
   \<and> allowed_transitions
       (get_state_for_event (example_event\<lparr>current_state_code := Some ''PATCHED''\<rparr>))
       (example_event\<lparr>current_state_code := Some ''PATCHED''\<rparr>) = [DEV_VERIFIED]
   \<and> STAGE_CR_READY \<noteq> DEV_VERIFIED
   \<and> fst (transition_patch_event
            (example_event\<lparr>current_state_code := Some ''PATCHED''\<rparr>) STAGE_CR_READY)
       = example_event\<lparr>current_state_code := Some ''PATCHED''\<rparr>"
  using unknown_state_code_defaults
    [of "example_event\<lparr>current_state_code := Some ''PATCHED''\<rparr>" STAGE_CR_READY]
  by (simp add: example_event_def lifecycle_codes_def state_mapping_def state_code_defs)

text \<open>
  C10: a call of \<^verbatim>\<open>transition_patch_event\<close> raises exactly when one of its two checks
  rejects the target, and then the event is as it was before the call.
\<close>

theorem transition_patch_event_failure_atomic:
  "(snd (transition_patch_event event target_code) \<noteq> Inr ())
     = ((target_code = CLOSED \<and> current_state_code event \<noteq> Some PROD_PATCHED)
        \<or> \<not> can_transition_to (get_state_for_event event) target_code event)
   \<and> (snd (transition_patch_event event target_code) \<noteq> Inr () \<longrightarrow>
        fst (transition_patch_event event target_code) = event
        \<and> current_state_code (fst (transition_patch_event event target_code))
            = current_state_code event)"
  by (simp add: transition_patch_event_def Let_def)

theorem transition_patch_event_failure_atomic_witness:
  "snd (transition_patch_event example_event STAGE_PATCHED) \<noteq> Inr ()
   \<and> fst (transition_patch_event example_event STAGE_PATCHED) = example_event"
  using transition_patch_event_failure_atomic [of example_event STAGE_PATCHED]
  by (simp add: example_event_def get_state_for_event_def state_code_or_default_def
      state_mapping_def can_transition_to_def state_code_defs)


section \<open>Properties of the evidence diff engine\<close>

lemma compute_fixed_vulnerabilities_eq_filter:
  "compute_fixed_vulnerabilities before_vulnerabilities after_vulnerabilities =
     filter (\<lambda>v. synthetic_id v \<notin> synthetic_id ` set after_vulnerabilities)
       before_vulnerabilities"
  unfolding compute_fixed_vulnerabilities_def Let_def
  by (induction before_vulnerabilities) simp_all

lemma counter_add_other: "y \<noteq> x \<Longrightarrow> counter_add x c y = c y"
  by (simp add: counter_add_def)

lemma dict_get_counter_add:
  "dict_get (counter_add x c) y 0 = dict_get c y 0 + (if y = x then 1 else 0)"
  by (simp add: dict_get_def counter_add_def split: option.splits)

lemma dict_get_fold_counter_add:
  "dict_get (fold counter_add xs c) y 0 = dict_get c y 0 + length (filter (\<lambda>x. x = y) xs)"
proof (induction xs arbitrary: c)
  case Nil
  show ?case by simp
next
  case (Cons x xs)
  show ?case
    by (simp add: Cons.IH dict_get_counter_add) 
qed

lemma dict_get_Counter:
  "dict_get (Counter xs) y 0 = length (filter (\<lambda>x. x = y) xs)"
proof -
  have "dict_get (Map.empty :: 'a \<rightharpoonup> nat) y 0 = 0"
    by (simp add: dict_get_def)
  then show ?thesis
    by (simp add: Counter_def dict_get_fold_counter_add)
qed

lemma count_by_severity_value:
  "count_by_severity vs sev = Some (length (filter (\<lambda>v. severity v = sev) vs))"
proof -
  have "length (filter (\<lambda>x. x = sev) (map severity vs))
          = length (filter (\<lambda>v. severity v = sev) vs)"
    by (induction vs) simp_all
  then show ?thesis
    by (cases sev)
      (simp_all add: count_by_severity_def Let_def Severity_members_def dict_get_Counter)
qed

lemma severity_partition:
  "length (filter (\<lambda>v. severity v = CRITICAL) vs)
     + (length (filter (\<lambda>v. severity v = HIGH) vs)
     + (length (filter (\<lambda>v. severity v = MEDIUM) vs)
     + length (filter (\<lambda>v. severity v = LOW) vs))) = length vs"
proof (induction vs)
  case Nil
  show ?case by simp
next
  case (Cons v vs)
  then show ?case by (cases "severity v") simp_all
qed

text \<open>
  C3: the result is the BEFORE list filtered by "the identifier is not among the AFTER
  identifiers": a subsequence of the BEFORE list, in its order.
\<close>

theorem compute_fixed_vulnerabilities_stable_filter:
  "compute_fixed_vulnerabilities before_vulnerabilities after_vulnerabilities =
     filter (\<lambda>v. synthetic_id v \<notin> synthetic_id ` set after_vulnerabilities)
       before_vulnerabilities
   \<and> subseq (compute_fixed_vulnerabilities before_vulnerabilities after_vulnerabilities)
       before_vulnerabilities"
  by (simp add: compute_fixed_vulnerabilities_eq_filter)

text \<open>
  C7: the result has exactly the four severities as keys, each with the number of
  records of that severity, and the four counts add up to the number of records.
\<close>

theorem count_by_severity_keys_and_sum:
  "dom (count_by_severity vulns) = {CRITICAL, HIGH, MEDIUM, LOW}
   \<and> card (dom (count_by_severity vulns)) = 4
   \<and> count_by_severity vulns sev = Some (length (filter (\<lambda>v. severity v = sev) vulns))
   \<and> (\<Sum>s \<in> {CRITICAL, HIGH, MEDIUM, LOW}. the (count_by_severity vulns s)) = length vulns"
proof -
  have keys: "dom (count_by_severity vulns) = {CRITICAL, HIGH, MEDIUM, LOW}"
  proof -
    have "dom (count_by_severity vulns) = UNIV"
      by (auto simp: count_by_severity_value)
    moreover have "(UNIV :: severity set) = {CRITICAL, HIGH, MEDIUM, LOW}"
      using severity.exhaust by auto
    ultimately show ?thesis by simp
  qed
  have total: "(\<Sum>s \<in> {CRITICAL, HIGH, MEDIUM, LOW}. the (count_by_severity vulns s))
                 = length vulns"
    by (simp add: count_by_severity_value severity_partition)
  from keys total show ?thesis
    by (simp add: count_by_severity_value)
qed

text \<open>
  C8, as stated, fails: with one side empty and the other not, the two calls differ.
\<close>

theorem compute_fixed_vulnerabilities_empty_side_counterexample:
  "compute_fixed_vulnerabilities [example_vulnerability 1 1 LOW] []
     \<noteq> compute_fixed_vulnerabilities [] [example_vulnerability 1 1 LOW]"
  by (simp add: compute_fixed_vulnerabilities_def)

text \<open>
  C8, amended: the function is not symmetric. Against an empty AFTER list every BEFORE
  record is returned, and from an empty BEFORE list none, so with one side empty the
  two calls agree only if the other side is empty too. In general they agree exactly
  when both lists carry the same set of identifiers.
\<close>

theorem compute_fixed_vulnerabilities_symmetry:
  "(\<exists>xs ys. compute_fixed_vulnerabilities xs ys \<noteq> compute_fixed_vulnerabilities ys xs)
   \<and> compute_fixed_vulnerabilities a [] = a
   \<and> compute_fixed_vulnerabilities [] a = []
   \<and> (compute_fixed_vulnerabilities a [] = compute_fixed_vulnerabilities [] a) = (a = [])
   \<and> (compute_fixed_vulnerabilities a b = compute_fixed_vulnerabilities b a)
       = (synthetic_id ` set a = synthetic_id ` set b)"
proof -
  let ?ids = "\<lambda>xs. synthetic_id ` set xs"
  have differ: "\<exists>xs ys. compute_fixed_vulnerabilities xs ys
                   \<noteq> compute_fixed_vulnerabilities ys xs"
  proof (intro exI)
    show "compute_fixed_vulnerabilities [example_vulnerability 1 1 LOW] []
            \<noteq> compute_fixed_vulnerabilities [] [example_vulnerability 1 1 LOW]"
      by (simp add: compute_fixed_vulnerabilities_def)
  qed
  have right: "compute_fixed_vulnerabilities a [] = a"
    by (simp add: compute_fixed_vulnerabilities_eq_filter)
  have left: "compute_fixed_vulnerabilities [] a = []"
    by (simp add: compute_fixed_vulnerabilities_eq_filter)
  have empty_iff: "(compute_fixed_vulnerabilities xs ys = []) = (?ids xs \<subseteq> ?ids ys)" for xs ys
    by (auto simp: compute_fixed_vulnerabilities_eq_filter filter_empty_conv)
  have general: "(compute_fixed_vulnerabilities a b = compute_fixed_vulnerabilities b a)
       = (?ids a = ?ids b)"
  proof
    assume eq: "compute_fixed_vulnerabilities a b = compute_fixed_vulnerabilities b a"
    have "compute_fixed_vulnerabilities a b = []"
    proof (rule ccontr)
      assume "compute_fixed_vulnerabilities a b \<noteq> []"
      then obtain v where v: "v \<in> set (compute_fixed_vulnerabilities a b)"
        by (cases "compute_fixed_vulnerabilities a b") auto
      then have "synthetic_id v \<notin> ?ids b"
        by (simp add: compute_fixed_vulnerabilities_eq_filter)
      moreover from v eq have "v \<in> set (compute_fixed_vulnerabilities b a)"
        by simp
      then have "v \<in> set b"
        by (simp add: compute_fixed_vulnerabilities_eq_filter)
      ultimately show False by blast
    qed
    with eq have "compute_fixed_vulnerabilities b a = []" by simp
    with \<open>compute_fixed_vulnerabilities a b = []\<close> show "?ids a = ?ids b"
      by (simp add: empty_iff)
  next
    assume "?ids a = ?ids b"
    then have "compute_fixed_vulnerabilities a b = []" "compute_fixed_vulnerabilities b a = []"
      by (simp_all add: empty_iff)
    then show "compute_fixed_vulnerabilities a b = compute_fixed_vulnerabilities b a"
      by simp
  qed
  from differ right left general show ?thesis by auto
qed


section \<open>Properties of the random source and of floating-point products\<close>

lemma randbelow_less:
  "0 < n \<Longrightarrow> fst (randbelow n rng) < n"
  by (simp add: randbelow_def split: list.splits)

lemma randint_in_range:
  assumes "a \<le> b"
  shows "\<exists>r rng'. randint a b rng = Inr (r, rng') \<and> a \<le> r \<and> r \<le> b"
proof -
  obtain r rng' where draw: "randbelow (nat (b + 1 - a)) rng = (r, rng')"
    by (cases "randbelow (nat (b + 1 - a)) rng")
  from assms have "fst (randbelow (nat (b + 1 - a)) rng) < nat (b + 1 - a)"
    by (intro randbelow_less) simp
  with draw have "int r < b + 1 - a" by simp
  with assms draw show ?thesis
    by (simp add: randint_def)
qed

lemma choice_in_set:
  assumes "seq \<noteq> []"
  shows "\<exists>x rng'. choice seq rng = Inr (x, rng') \<and> x \<in> set seq"
proof -
  obtain i rng' where draw: "randbelow (length seq) rng = (i, rng')"
    by (cases "randbelow (length seq) rng")
  from assms have "0 < length seq" by simp
  then have "fst (randbelow (length seq) rng) < length seq"
    by (rule randbelow_less)
  with draw assms show ?thesis
    by (simp add: choice_def)
qed

lemma set_butlast_update_last:
  "set (butlast (pool[j := last pool])) \<subseteq> set pool"
proof (cases "pool = []")
  case True
  then show ?thesis by simp
next
  case False
  have "set (butlast (pool[j := last pool])) \<subseteq> set (pool[j := last pool])"
    by (auto dest: in_set_butlastD)
  also have "\<dots> \<subseteq> insert (last pool) (set pool)"
    by (rule set_update_subset_insert)
  also from False have "\<dots> \<subseteq> set pool"
    by simp
  finally show ?thesis .
qed

lemma sample_pool_props:
  "k \<le> length pool \<Longrightarrow>
     length (fst (sample_pool pool k rng)) = k
     \<and> set (fst (sample_pool pool k rng)) \<subseteq> set pool"
proof (induction k arbitrary: pool rng)
  case 0
  show ?case by simp
next
  case (Suc k)
  obtain j rng' where draw: "randbelow (length pool) rng = (j, rng')"
    by (cases "randbelow (length pool) rng")
  let ?pool' = "butlast (pool[j := last pool])"
  obtain rest rng'' where rec: "sample_pool ?pool' k rng' = (rest, rng'')"
    by (cases "sample_pool ?pool' k rng'")
  from Suc.prems have "0 < length pool" by arith
  then have "fst (randbelow (length pool) rng) < length pool"
    by (rule randbelow_less)
  with draw have j: "j < length pool" by simp
  have "length ?pool' = length pool - 1" by simp
  with Suc.prems have "k \<le> length ?pool'" by arith
  from Suc.IH [OF this, of rng'] rec
  have "length rest = k" "set rest \<subseteq> set ?pool'" by simp_all
  with set_butlast_update_last [of pool j] have "set rest \<subseteq> set pool" by blast
  with \<open>length rest = k\<close> j draw rec show ?case by simp
qed

lemma last_update_last: "last (pool[j := last pool]) = last pool"
proof (cases "pool = []")
  case True
  then show ?thesis by simp
next
  case False
  then show ?thesis
    by (cases "j = length pool - 1") (simp_all add: last_conv_nth nth_list_update)
qed

lemma mset_butlast_update_last:
  assumes "j < length pool"
  shows "mset (butlast (pool[j := last pool])) + {#pool ! j#} = mset pool"
proof -
  let ?zs = "pool[j := last pool]"
  from assms have ne: "?zs \<noteq> []" by auto
  from assms have "last pool \<in># mset pool" by (cases "pool = []") simp_all
  have "mset ?zs = mset (butlast ?zs) + {#last ?zs#}"
    using ne by (metis append_butlast_last_id mset.simps(1) mset.simps(2) mset_append
        add_mset_add_single)
  then have a: "mset ?zs = mset (butlast ?zs) + {#last pool#}"
    by (simp add: last_update_last)
  have "mset ?zs = add_mset (last pool) (mset pool - {#pool ! j#})"
    using assms by (rule mset_update)
  with a have "mset (butlast ?zs) = mset pool - {#pool ! j#}"
    by simp
  moreover from assms have "pool ! j \<in># mset pool" by simp
  ultimately show ?thesis by simp
qed

lemma sample_pool_mset:
  "k \<le> length pool \<Longrightarrow> mset (fst (sample_pool pool k rng)) \<subseteq># mset pool"
proof (induction k arbitrary: pool rng)
  case 0
  show ?case by simp
next
  case (Suc k)
  obtain j rng' where draw: "randbelow (length pool) rng = (j, rng')"
    by (cases "randbelow (length pool) rng")
  let ?pool' = "butlast (pool[j := last pool])"
  obtain rest rng'' where rec: "sample_pool ?pool' k rng' = (rest, rng'')"
    by (cases "sample_pool ?pool' k rng'")
  from Suc.prems have "0 < length pool" by arith
  then have "fst (randbelow (length pool) rng) < length pool"
    by (rule randbelow_less)
  with draw have j: "j < length pool" by simp
  have "length ?pool' = length pool - 1" by simp
  with Suc.prems have "k \<le> length ?pool'" by arith
  from Suc.IH [OF this, of rng'] rec have "mset rest \<subseteq># mset ?pool'" by simp
  then have "mset rest + {#pool ! j#} \<subseteq># mset ?pool' + {#pool ! j#}"
    by simp
  with mset_butlast_update_last [OF j] have "mset (pool ! j # rest) \<subseteq># mset pool"
    by simp
  with draw rec show ?case by simp
qed

lemma sample_props:
  assumes "0 \<le> k" "k \<le> int (length population)"
  shows "\<exists>xs rng'. sample population k rng = Inr (xs, rng')
           \<and> int (length xs) = k \<and> set xs \<subseteq> set population
           \<and> mset xs \<subseteq># mset population"
proof -
  from assms have "nat k \<le> length population" by simp
  from sample_pool_props [OF this, of rng] sample_pool_mset [OF this, of rng] assms
  show ?thesis
    by (cases "sample_pool population (nat k) rng") (simp add: sample_def)
qed

lemma sample_too_large:
  "int (length population) < k \<Longrightarrow>
     sample population k rng = Inl (ValueError ''Sample larger than population or is negative'')"
  by (simp add: sample_def)

lemma round_half_even_nonneg: "0 \<le> m \<Longrightarrow> 0 \<le> round_half_even m s"
  by (simp add: round_half_even_def Let_def pos_imp_zdiv_nonneg_iff)

lemma round_half_even_nonpos:
  assumes "m \<le> 0"
  shows "round_half_even m s \<le> 0"
proof -
  let ?q = "m div 2 ^ s" and ?r = "m mod 2 ^ s"
  have q: "?q \<le> 0"
    using assms by (simp add: div_nonpos_pos_le0)
  have "?q < 0" if "0 < ?r"
  proof (rule ccontr)
    assume "\<not> ?q < 0"
    with q have "?q = 0" by simp
    then have "m = ?r" using div_mult_mod_eq [of m "2 ^ s"] by simp
    with that assms show False by simp
  qed
  then have "?q + 1 \<le> 0" if "0 < ?r" using that by force
  moreover have "0 < ?r" if "\<not> 2 * ?r < 2 ^ s"
  proof -
    have "(0::int) < 2 ^ s" by simp
    with that show ?thesis by linarith
  qed
  ultimately show ?thesis
    using q by (auto simp: round_half_even_def Let_def)
qed

lemma to_double_sign:
  "to_double m e = Finite m' e' \<Longrightarrow> (0 \<le> m \<longrightarrow> 0 \<le> m') \<and> (m \<le> 0 \<longrightarrow> m' \<le> 0)"
  by (auto simp: to_double_def Let_def round_half_even_nonneg round_half_even_nonpos
      split: if_splits)

lemma to_double_not_NaN: "to_double m e \<noteq> NaN"
  by (simp add: to_double_def Let_def)

lemma int_of_float_nonpos:
  "int_of_float (Finite m e) = Inr v \<Longrightarrow> m \<le> 0 \<Longrightarrow> v \<le> 0"
  by (auto simp: mult_le_0_iff pos_imp_zdiv_nonneg_iff split: if_splits)

lemma truncated_product_nonpos:
  assumes "and_then (int_times_float n x) int_of_float = Inr v" "0 \<le> n" "float_le_zero x"
  shows "v \<le> 0"
proof -
  from assms(1) obtain f where f: "float_of_int n = Inr f" "int_of_float (float_mul f x) = Inr v"
    by (auto simp: int_times_float_def and_then_def split: sum.splits)
  from f(1) obtain a b where ab: "f = Finite a b" "to_double n 0 = Finite a b"
    using to_double_not_NaN [of n 0]
    by (cases "to_double n 0") (auto simp: float_of_int_def)
  with assms(2) to_double_sign [of n 0 a b] have a: "0 \<le> a" by simp
  from assms(3) f(2) ab obtain m e where x: "x = Finite m e" "m \<le> 0"
    by (cases x) (auto split: if_splits)
  from f(2) ab x obtain m' e' where p: "to_double (a * m) (b + e) = Finite m' e'"
      "int_of_float (Finite m' e') = Inr v"
    by (cases "to_double (a * m) (b + e)") auto
  from a x have "a * m \<le> 0" by (simp add: mult_le_0_iff)
  with to_double_sign [OF p(1)] have "m' \<le> 0" by simp
  with p(2) show ?thesis by (rule int_of_float_nonpos)
qed

lemma remaining_bounds_nonpositive_ratios:
  assumes "remaining_bounds total' r1 r2 = Inr (lo, hi)" "0 \<le> total'"
    "float_le_zero r1" "float_le_zero r2"
  shows "lo = 1 \<and> hi = 1"
proof -
  from assms(1) obtain v1 v2 where v:
      "and_then (int_times_float total' r1) int_of_float = Inr v1"
      "and_then (int_times_float total' r2) int_of_float = Inr v2"
      "lo = max 1 v1" "hi = max lo v2"
    by (auto simp: remaining_bounds_def Let_def and_then_def split: sum.splits)
  from truncated_product_nonpos [OF v(1) assms(2,3)] truncated_product_nonpos [OF v(2) assms(2,4)]
  have "v1 \<le> 0" "v2 \<le> 0" .
  with v(3,4) show ?thesis by simp
qed


section \<open>Properties of the database session\<close>

lemma fold_db_delete:
  "scan_snapshots (fold (\<lambda>snapshot d. db_delete d snapshot) xs db)
     = filter (\<lambda>s. snap_id s \<notin> snap_id ` set xs) (scan_snapshots db)
   \<and> vulnerabilities (fold (\<lambda>snapshot d. db_delete d snapshot) xs db)
     = filter (\<lambda>v. scan_snapshot_id v \<notin> snap_id ` set xs) (vulnerabilities db)
   \<and> patch_events (fold (\<lambda>snapshot d. db_delete d snapshot) xs db) = patch_events db
   \<and> next_snapshot_id (fold (\<lambda>snapshot d. db_delete d snapshot) xs db)
     = next_snapshot_id db"
proof (induction xs arbitrary: db)
  case Nil
  show ?case by simp
next
  case (Cons x xs)
  have "filter (\<lambda>s. snap_id s \<notin> snap_id ` set xs)
          (filter (\<lambda>s. snap_id s \<noteq> snap_id x) (scan_snapshots db))
        = filter (\<lambda>s. snap_id s \<notin> snap_id ` set (x # xs)) (scan_snapshots db)"
    by (simp add: conj_commute)
  moreover have "filter (\<lambda>v. scan_snapshot_id v \<notin> snap_id ` set xs)
          (filter (\<lambda>v. scan_snapshot_id v \<noteq> snap_id x) (vulnerabilities db))
        = filter (\<lambda>v. scan_snapshot_id v \<notin> snap_id ` set (x # xs)) (vulnerabilities db)"
    by (simp add: conj_commute)
  ultimately show ?case
    using Cons.IH [of "db_delete db x"] by (simp add: db_delete_def)
qed

lemma deleted_keys:
  assumes "distinct (map snap_id (scan_snapshots db))" "s \<in> set (scan_snapshots db)"
  shows "(snap_id s \<in> snap_id ` set (query_snapshots db event_id tag))
           = (patch_event_id s = event_id \<and> snapshot_type s = tag)"
proof
  assume "snap_id s \<in> snap_id ` set (query_snapshots db event_id tag)"
  then obtain s' where s': "s' \<in> set (scan_snapshots db)" "snap_id s' = snap_id s"
      "patch_event_id s' = event_id" "snapshot_type s' = tag"
    by (auto simp: query_snapshots_def)
  from assms(1) have "inj_on snap_id (set (scan_snapshots db))"
    by (simp add: distinct_map)
  with s' assms(2) have "s' = s" by (auto dest: inj_onD)
  with s' show "patch_event_id s = event_id \<and> snapshot_type s = tag" by simp
next
  assume "patch_event_id s = event_id \<and> snapshot_type s = tag"
  with assms(2) show "snap_id s \<in> snap_id ` set (query_snapshots db event_id tag)"
    by (auto simp: query_snapshots_def)
qed

lemma delete_existing_snapshots_tables:
  "scan_snapshots (delete_existing_snapshots db event_id tag)
     = filter (\<lambda>s. snap_id s \<notin> snap_id ` set (query_snapshots db event_id tag))
         (scan_snapshots db)
   \<and> vulnerabilities (delete_existing_snapshots db event_id tag)
     = filter (\<lambda>v. scan_snapshot_id v \<notin> snap_id ` set (query_snapshots db event_id tag))
         (vulnerabilities db)
   \<and> patch_events (delete_existing_snapshots db event_id tag) = patch_events db
   \<and> next_snapshot_id (delete_existing_snapshots db event_id tag) = next_snapshot_id db"
  unfolding delete_existing_snapshots_def Let_def by (rule fold_db_delete)

lemma delete_existing_snapshots_rows:
  assumes "distinct (map snap_id (scan_snapshots db))"
  shows "scan_snapshots (delete_existing_snapshots db event_id tag)
     = filter (\<lambda>s. \<not> (patch_event_id s = event_id \<and> snapshot_type s = tag))
         (scan_snapshots db)"
proof -
  have "filter (\<lambda>s. snap_id s \<notin> snap_id ` set (query_snapshots db event_id tag))
          (scan_snapshots db)
        = filter (\<lambda>s. \<not> (patch_event_id s = event_id \<and> snapshot_type s = tag))
          (scan_snapshots db)"
    by (rule filter_cong) (simp_all add: deleted_keys [OF assms])
  then show ?thesis by (simp add: delete_existing_snapshots_tables)
qed

lemma session_ok_delete_existing_snapshots:
  "session_ok db \<Longrightarrow> session_ok (delete_existing_snapshots db event_id tag)"
  by (simp add: session_ok_def delete_existing_snapshots_tables distinct_map_filter
      list_all_iff)

lemma query_after_delete_same:
  assumes "distinct (map snap_id (scan_snapshots db))"
  shows "query_snapshots (delete_existing_snapshots db event_id tag) event_id tag = []"
  by (simp add: query_snapshots_def delete_existing_snapshots_rows [OF assms]
      filter_empty_conv)

lemma query_after_delete_other:
  assumes "distinct (map snap_id (scan_snapshots db))" "tag' \<noteq> tag"
  shows "query_snapshots (delete_existing_snapshots db event_id tag) event_id' tag'
           = query_snapshots db event_id' tag'"
proof -
  have "filter (\<lambda>s. patch_event_id s = event_id' \<and> snapshot_type s = tag')
          (filter (\<lambda>s. \<not> (patch_event_id s = event_id \<and> snapshot_type s = tag))
             (scan_snapshots db))
        = filter (\<lambda>s. patch_event_id s = event_id' \<and> snapshot_type s = tag')
            (scan_snapshots db)"
    using assms(2) by (auto intro: filter_cong)
  then show ?thesis
    by (simp add: query_snapshots_def delete_existing_snapshots_rows [OF assms(1)])
qed

lemma vulnerabilities_after_delete_other:
  assumes "distinct (map snap_id (scan_snapshots db))" "s \<in> set (scan_snapshots db)"
    "snapshot_type s \<noteq> tag"
  shows "snapshot_vulnerabilities (delete_existing_snapshots db event_id tag) s
           = snapshot_vulnerabilities db s"
proof -
  from assms have kept: "snap_id s \<notin> snap_id ` set (query_snapshots db event_id tag)"
    by (simp add: deleted_keys)
  have "filter (\<lambda>v. scan_snapshot_id v \<notin> snap_id ` set (query_snapshots db event_id tag)
                     \<and> scan_snapshot_id v = snap_id s) (vulnerabilities db)
        = filter (\<lambda>v. scan_snapshot_id v = snap_id s) (vulnerabilities db)"
    using kept by (intro filter_cong refl) (auto simp: image_iff)
  then show ?thesis
    by (simp add: snapshot_vulnerabilities_def delete_existing_snapshots_tables)
qed

lemma vulnerabilities_after_delete_same:
  assumes "s \<in> set (query_snapshots db event_id tag)"
  shows "snapshot_vulnerabilities (delete_existing_snapshots db event_id tag) s = []"
  using assms
  by (auto simp: snapshot_vulnerabilities_def delete_existing_snapshots_tables
      filter_empty_conv)

lemma db_add_snapshot_tables:
  "db_add_snapshot db event_id tag = (snapshot, db') \<Longrightarrow>
     snapshot = \<lparr>snap_id = next_snapshot_id db, patch_event_id = event_id,
                  snapshot_type = tag\<rparr>
     \<and> scan_snapshots db' = scan_snapshots db @ [snapshot]
     \<and> vulnerabilities db' = vulnerabilities db
     \<and> patch_events db' = patch_events db
     \<and> next_snapshot_id db' = Suc (next_snapshot_id db)"
  by (auto simp: db_add_snapshot_def Let_def)

lemma fresh_snapshot_no_vulnerabilities:
  "session_ok db \<Longrightarrow> k \<ge> next_snapshot_id db \<Longrightarrow>
     filter (\<lambda>v. scan_snapshot_id v = k) (vulnerabilities db) = []"
  by (auto simp: session_ok_def list_all_iff filter_empty_conv)


section \<open>Properties of the snapshot generator\<close>

lemma and_then_Inr [simp]: "and_then (Inr x) f = f x"
  by (simp add: and_then_def)

lemma and_then_Inl [simp]: "and_then (Inl e) f = Inl e"
  by (simp add: and_then_def)

lemma snapshot_patch_event_add_vulnerability:
  "snapshot_patch_event (db_add_vulnerability db v) snapshot = snapshot_patch_event db snapshot"
  by (simp add: snapshot_patch_event_def db_add_vulnerability_def)

lemma build_vulnerability_ok:
  assumes "snapshot_patch_event db snapshot = Some event"
  shows "\<exists>v rng'. build_vulnerability db snapshot index rng = Inr (v, rng')
           \<and> scan_snapshot_id v = snap_id snapshot"
proof -
  obtain sev rng1 where sev: "choose_severity rng = Inr (sev, rng1)"
    using choice_in_set [of "[CRITICAL, HIGH, HIGH, MEDIUM, MEDIUM, LOW, LOW, LOW]" rng]
    by (auto simp: choose_severity_def)
  obtain year rng2 where year: "randint 2090 2099 rng1 = Inr (year, rng2)"
    using randint_in_range [of 2090 2099 rng1] by auto
  obtain ident rng3 where ident: "randint 1000 99999 rng2 = Inr (ident, rng3)"
    using randint_in_range [of 1000 99999 rng2] by auto
  obtain plug rng4 where plug: "randint 10000 99999 rng3 = Inr (plug, rng4)"
    using randint_in_range [of 10000 99999 rng3] by auto
  obtain idx rng5 where idx: "randint 1 9 rng4 = Inr (idx, rng5)"
    using randint_in_range [of 1 9 rng4] by auto
  from assms sev year ident plug idx show ?thesis
    by (simp add: build_vulnerability_def generate_synthetic_cve_def
        generate_synthetic_plugin_id_def generate_synthetic_host_def)
qed

lemma add_built_vulnerabilities_ok:
  assumes "snapshot_patch_event db snapshot = Some event"
  shows "\<exists>db' rng' new.
           add_built_vulnerabilities db snapshot indices rng = Inr (db', rng')
           \<and> vulnerabilities db' = vulnerabilities db @ new
           \<and> length new = length indices
           \<and> list_all (\<lambda>v. scan_snapshot_id v = snap_id snapshot) new
           \<and> scan_snapshots db' = scan_snapshots db
           \<and> patch_events db' = patch_events db
           \<and> next_snapshot_id db' = next_snapshot_id db"
  using assms
proof (induction indices arbitrary: db rng)
  case Nil
  show ?case by simp
next
  case (Cons index indices)
  from build_vulnerability_ok [OF Cons.prems, of index rng]
  obtain v rng1 where v: "build_vulnerability db snapshot index rng = Inr (v, rng1)"
      "scan_snapshot_id v = snap_id snapshot"
    by auto
  let ?db1 = "db_add_vulnerability db v"
  from Cons.prems have "snapshot_patch_event ?db1 snapshot = Some event"
    by (simp add: snapshot_patch_event_add_vulnerability)
  from Cons.IH [OF this, of rng1]
  obtain db' rng' new where rest:
      "add_built_vulnerabilities ?db1 snapshot indices rng1 = Inr (db', rng')"
      "vulnerabilities db' = vulnerabilities ?db1 @ new"
      "length new = length indices"
      "list_all (\<lambda>v. scan_snapshot_id v = snap_id snapshot) new"
      "scan_snapshots db' = scan_snapshots ?db1"
      "patch_events db' = patch_events ?db1"
      "next_snapshot_id db' = next_snapshot_id ?db1"
    by auto
  let ?new = "v\<lparr>vuln_id := Some (next_vulnerability_id db)\<rparr> # new"
  from v rest have "add_built_vulnerabilities db snapshot (index # indices) rng = Inr (db', rng')"
    by simp
  moreover from rest have "vulnerabilities db' = vulnerabilities db @ ?new"
    by (simp add: db_add_vulnerability_def)
  moreover from rest have "length ?new = length (index # indices)" by simp
  moreover from rest v have "list_all (\<lambda>v. scan_snapshot_id v = snap_id snapshot) ?new"
    by simp
  moreover from rest have "scan_snapshots db' = scan_snapshots db"
    "patch_events db' = patch_events db" "next_snapshot_id db' = next_snapshot_id db"
    by (simp_all add: db_add_vulnerability_def)
  ultimately show ?case by blast
qed

lemma add_built_vulnerabilities_missing_event:
  "snapshot_patch_event db snapshot = None \<Longrightarrow>
     add_built_vulnerabilities db snapshot (index # indices) rng
       = Inl (AttributeError ''NoneType object has no attribute environment'')"
  by (simp add: build_vulnerability_def)

lemma fold_carry_over:
  "map finding (filter (\<lambda>v. scan_snapshot_id v = snap_id snapshot)
       (vulnerabilities (fold (\<lambda>before_vuln d.
            db_add_vulnerability d (carry_over snapshot before_vuln)) chosen db)))
     = map finding (filter (\<lambda>v. scan_snapshot_id v = snap_id snapshot) (vulnerabilities db))
         @ map finding chosen
   \<and> scan_snapshots (fold (\<lambda>before_vuln d.
            db_add_vulnerability d (carry_over snapshot before_vuln)) chosen db)
       = scan_snapshots db
   \<and> patch_events (fold (\<lambda>before_vuln d.
            db_add_vulnerability d (carry_over snapshot before_vuln)) chosen db)
       = patch_events db
   \<and> next_snapshot_id (fold (\<lambda>before_vuln d.
            db_add_vulnerability d (carry_over snapshot before_vuln)) chosen db)
       = next_snapshot_id db
   \<and> filter (\<lambda>v. scan_snapshot_id v \<noteq> snap_id snapshot)
       (vulnerabilities (fold (\<lambda>before_vuln d.
            db_add_vulnerability d (carry_over snapshot before_vuln)) chosen db))
       = filter (\<lambda>v. scan_snapshot_id v \<noteq> snap_id snapshot) (vulnerabilities db)"
proof (induction chosen arbitrary: db)
  case Nil
  show ?case by simp
next
  case (Cons b chosen)
  show ?case
    using Cons.IH [of "db_add_vulnerability db (carry_over snapshot b)"]
    by (simp add: db_add_vulnerability_def carry_over_def finding_def)
qed

lemma generate_before_snapshot_ok:
  assumes ok: "session_ok db"
    and ev: "find (\<lambda>e. pe_id e = pe_id patch_event) (patch_events db) = Some event"
  shows "\<exists>snapshot db' rng'.
           generate_before_snapshot db patch_event n rng = Inr (snapshot, db', rng')
           \<and> session_ok db'
           \<and> patch_events db' = patch_events db
           \<and> snap_id snapshot = next_snapshot_id db
           \<and> query_snapshots db' (pe_id patch_event) BEFORE = [snapshot]
           \<and> query_snapshots db' (pe_id patch_event) AFTER
               = query_snapshots db (pe_id patch_event) AFTER
           \<and> length (snapshot_vulnerabilities db' snapshot) = nat n
           \<and> list_all (\<lambda>s. s \<notin> set (scan_snapshots db')
                            \<and> snapshot_vulnerabilities db' s = [])
               (query_snapshots db (pe_id patch_event) BEFORE)"
proof -
  let ?eid = "pe_id patch_event"
  let ?db1 = "delete_existing_snapshots db ?eid BEFORE"
  from ok have dist: "distinct (map snap_id (scan_snapshots db))"
    by (simp add: session_ok_def)
  have ok1: "session_ok ?db1"
    using ok by (rule session_ok_delete_existing_snapshots)
  obtain snapshot db2 where add: "db_add_snapshot ?db1 ?eid BEFORE = (snapshot, db2)"
    by (cases "db_add_snapshot ?db1 ?eid BEFORE")
  note t1 = delete_existing_snapshots_tables [of db ?eid BEFORE]
  note t2 = db_add_snapshot_tables [OF add]
  from t1 t2 have key: "snap_id snapshot = next_snapshot_id db" by simp
  from t1 t2 ev have "snapshot_patch_event db2 snapshot = Some event"
    by (simp add: snapshot_patch_event_def)
  from add_built_vulnerabilities_ok [OF this, of "[1..n]" rng]
  obtain db3 rng1 new where built:
      "add_built_vulnerabilities db2 snapshot [1..n] rng = Inr (db3, rng1)"
      "vulnerabilities db3 = vulnerabilities db2 @ new"
      "length new = length [1..n]"
      "list_all (\<lambda>v. scan_snapshot_id v = snap_id snapshot) new"
      "scan_snapshots db3 = scan_snapshots db2"
      "patch_events db3 = patch_events db2"
      "next_snapshot_id db3 = next_snapshot_id db2"
    by auto
  have result: "generate_before_snapshot db patch_event n rng = Inr (snapshot, db3, rng1)"
    using add built(1) by (simp add: generate_before_snapshot_def)
  have old_free: "filter (\<lambda>v. scan_snapshot_id v = snap_id snapshot) (vulnerabilities ?db1) = []"
    using ok1 t1 key by (intro fresh_snapshot_no_vulnerabilities) simp_all
  have rows3: "scan_snapshots db3 = scan_snapshots ?db1 @ [snapshot]"
    using built t2 by simp
  have vulns3: "vulnerabilities db3 = vulnerabilities ?db1 @ new"
    using built t2 by simp
  have ok3: "session_ok db3"
    using ok1 rows3 vulns3 built(4,7) t1 t2 key
    by (auto simp: session_ok_def list_all_iff less_Suc_eq)
  have before3: "query_snapshots db3 ?eid BEFORE = [snapshot]"
    using rows3 t2 query_after_delete_same [OF dist, of ?eid BEFORE]
    by (simp add: query_snapshots_def)
  have after3: "query_snapshots db3 ?eid AFTER = query_snapshots db ?eid AFTER"
    using rows3 t2 query_after_delete_other [OF dist, of AFTER BEFORE ?eid ?eid]
    by (simp add: query_snapshots_def)
  have "filter (\<lambda>v. scan_snapshot_id v = snap_id snapshot) new = new"
    using built(4) by (simp add: list_all_iff)
  with vulns3 old_free built(3)
  have count: "length (snapshot_vulnerabilities db3 snapshot) = nat n"
    by (simp add: snapshot_vulnerabilities_def)
  have gone: "list_all (\<lambda>s. s \<notin> set (scan_snapshots db3)
                            \<and> snapshot_vulnerabilities db3 s = [])
               (query_snapshots db ?eid BEFORE)"
    unfolding list_all_iff
  proof
    fix s assume s: "s \<in> set (query_snapshots db ?eid BEFORE)"
    then have s_db: "s \<in> set (scan_snapshots db)"
      by (simp add: query_snapshots_def)
    with ok key have ne: "snap_id s \<noteq> snap_id snapshot"
      by (auto simp: session_ok_def list_all_iff)
    from s have "s \<notin> set (scan_snapshots ?db1)"
      by (simp add: delete_existing_snapshots_rows [OF dist] query_snapshots_def)
    with ne rows3 have a: "s \<notin> set (scan_snapshots db3)" by auto
    from ne built(4) have "filter (\<lambda>v. scan_snapshot_id v = snap_id s) new = []"
      by (auto simp: list_all_iff filter_empty_conv)
    with vulns3 vulnerabilities_after_delete_same [OF s]
    have b: "snapshot_vulnerabilities db3 s = []"
      by (simp add: snapshot_vulnerabilities_def)
    from a b show "s \<notin> set (scan_snapshots db3) \<and> snapshot_vulnerabilities db3 s = []" ..
  qed
  from result ok3 built(6) t1 t2 key before3 after3 count gone show ?thesis
    by simp
qed

lemma remaining_bounds_clamped:
  "remaining_bounds total' r1 r2 = Inr (lo, hi) \<Longrightarrow> 1 \<le> lo \<and> lo \<le> hi"
  by (auto simp: remaining_bounds_def and_then_def Let_def split: sum.splits)

lemma remaining_bounds_defaults: "remaining_bounds 20 ratio_0_3 ratio_0_7 = Inr (6, 14)"
  by (simp add: remaining_bounds_def int_times_float_def float_of_int_def to_double_def
      bit_length_def round_half_even_def ratio_0_3_def ratio_0_7_def Let_def)

lemma first_Some_mem: "first rows = Some r \<Longrightarrow> r \<in> set rows"
  by (cases rows) (simp_all add: first_def)

lemma filter_key_other:
  "k \<noteq> s \<Longrightarrow>
     filter (\<lambda>v. f v = k) (filter (\<lambda>v. f v \<noteq> s) xs) = filter (\<lambda>v. f v = k) xs"
  by (induction xs) simp_all

lemma generate_after_snapshot_carry:
  assumes ok: "session_ok db"
    and bs: "first (query_snapshots db (pe_id patch_event) BEFORE) = Some before_snapshot"
    and nonempty: "snapshot_vulnerabilities db before_snapshot \<noteq> []"
  shows "generate_after_snapshot db patch_event r1 r2 rng =
     and_then (remaining_bounds (int (length (snapshot_vulnerabilities db before_snapshot))) r1 r2)
       (\<lambda>(min_remaining, max_remaining).
     and_then (randint min_remaining max_remaining rng)
       (\<lambda>(remaining_count, rng1).
     and_then (sample (snapshot_vulnerabilities db before_snapshot) remaining_count rng1)
       (\<lambda>(remaining_vulns, rng2).
     let (snapshot, db2) =
           db_add_snapshot (delete_existing_snapshots db (pe_id patch_event) AFTER)
             (pe_id patch_event) AFTER;
         db3 = fold (\<lambda>before_vuln d.
                     db_add_vulnerability d (carry_over snapshot before_vuln))
                 remaining_vulns db2
     in Inr (snapshot, db3, rng2))))"
proof -
  let ?eid = "pe_id patch_event"
  let ?db1 = "delete_existing_snapshots db ?eid AFTER"
  from ok have dist: "distinct (map snap_id (scan_snapshots db))"
    by (simp add: session_ok_def)
  have q: "query_snapshots ?db1 ?eid BEFORE = query_snapshots db ?eid BEFORE"
    using dist by (rule query_after_delete_other) simp
  from bs have "before_snapshot \<in> set (query_snapshots db ?eid BEFORE)"
    by (rule first_Some_mem)
  then have "before_snapshot \<in> set (scan_snapshots db)"
      "snapshot_type before_snapshot \<noteq> AFTER"
    by (simp_all add: query_snapshots_def)
  with dist have v: "snapshot_vulnerabilities ?db1 before_snapshot
                       = snapshot_vulnerabilities db before_snapshot"
    by (rule vulnerabilities_after_delete_other)
  from q bs v nonempty show ?thesis
    by (simp add: generate_after_snapshot_def Let_def)
qed

lemma generate_after_snapshot_result:
  assumes ok: "session_ok db"
    and bs: "first (query_snapshots db (pe_id patch_event) BEFORE) = Some before_snapshot"
    and nonempty: "snapshot_vulnerabilities db before_snapshot \<noteq> []"
    and bounds: "remaining_bounds (int (length (snapshot_vulnerabilities db before_snapshot)))
                   r1 r2 = Inr (lo, hi)"
    and draw: "randint lo hi rng = Inr (c, rng1)"
    and fits: "0 \<le> c" "c \<le> int (length (snapshot_vulnerabilities db before_snapshot))"
  shows "\<exists>snapshot db' rng' chosen.
           generate_after_snapshot db patch_event r1 r2 rng = Inr (snapshot, db', rng')
           \<and> int (length chosen) = c
           \<and> set chosen \<subseteq> set (snapshot_vulnerabilities db before_snapshot)
           \<and> mset chosen \<subseteq># mset (snapshot_vulnerabilities db before_snapshot)
           \<and> map finding (snapshot_vulnerabilities db' snapshot) = map finding chosen
           \<and> query_snapshots db' (pe_id patch_event) AFTER = [snapshot]
           \<and> query_snapshots db' (pe_id patch_event) BEFORE
               = query_snapshots db (pe_id patch_event) BEFORE
           \<and> snapshot_vulnerabilities db' before_snapshot
               = snapshot_vulnerabilities db before_snapshot"
proof -
  let ?eid = "pe_id patch_event"
  let ?db1 = "delete_existing_snapshots db ?eid AFTER"
  let ?before = "snapshot_vulnerabilities db before_snapshot"
  from ok have dist: "distinct (map snap_id (scan_snapshots db))"
    by (simp add: session_ok_def)
  have ok1: "session_ok ?db1"
    using ok by (rule session_ok_delete_existing_snapshots)
  from sample_props [OF fits, of rng1]
  obtain chosen rng2 where chosen: "sample ?before c rng1 = Inr (chosen, rng2)"
      "int (length chosen) = c" "set chosen \<subseteq> set ?before"
      "mset chosen \<subseteq># mset ?before"
    by auto
  obtain snapshot db2 where add: "db_add_snapshot ?db1 ?eid AFTER = (snapshot, db2)"
    by (cases "db_add_snapshot ?db1 ?eid AFTER")
  let ?db3 = "fold (\<lambda>before_vuln d. db_add_vulnerability d (carry_over snapshot before_vuln))
                chosen db2"
  note t1 = delete_existing_snapshots_tables [of db ?eid AFTER]
  note t2 = db_add_snapshot_tables [OF add]
  note t3 = fold_carry_over [of snapshot chosen db2]
  have result: "generate_after_snapshot db patch_event r1 r2 rng = Inr (snapshot, ?db3, rng2)"
    using bounds draw chosen(1) add
    by (simp add: generate_after_snapshot_carry [OF ok bs nonempty])
  have "filter (\<lambda>v. scan_snapshot_id v = snap_id snapshot) (vulnerabilities ?db1) = []"
    using ok1 t2 by (intro fresh_snapshot_no_vulnerabilities) simp_all
  with t2 t3 have carried: "map finding (snapshot_vulnerabilities ?db3 snapshot)
                              = map finding chosen"
    by (simp add: snapshot_vulnerabilities_def)
  from t2 t3 have rows3: "scan_snapshots ?db3 = scan_snapshots ?db1 @ [snapshot]"
    by simp
  have after3: "query_snapshots ?db3 ?eid AFTER = [snapshot]"
    using rows3 t2 query_after_delete_same [OF dist, of ?eid AFTER]
    by (simp add: query_snapshots_def)
  have before3: "query_snapshots ?db3 ?eid BEFORE = query_snapshots db ?eid BEFORE"
    using rows3 t2 query_after_delete_other [OF dist, of BEFORE AFTER ?eid ?eid]
    by (simp add: query_snapshots_def)
  from bs have member: "before_snapshot \<in> set (query_snapshots db ?eid BEFORE)"
    by (rule first_Some_mem)
  then have in_db: "before_snapshot \<in> set (scan_snapshots db)"
      "snapshot_type before_snapshot \<noteq> AFTER"
    by (simp_all add: query_snapshots_def)
  with ok t1 t2 have other: "snap_id before_snapshot \<noteq> snap_id snapshot"
    by (auto simp: session_ok_def list_all_iff)
  have "snapshot_vulnerabilities ?db3 before_snapshot
          = filter (\<lambda>v. scan_snapshot_id v = snap_id before_snapshot)
              (filter (\<lambda>v. scan_snapshot_id v \<noteq> snap_id snapshot) (vulnerabilities ?db3))"
    unfolding snapshot_vulnerabilities_def by (rule filter_key_other [OF other, symmetric])
  also have "\<dots> = filter (\<lambda>v. scan_snapshot_id v = snap_id before_snapshot)
              (filter (\<lambda>v. scan_snapshot_id v \<noteq> snap_id snapshot) (vulnerabilities db2))"
    using t3 by simp
  also have "\<dots> = filter (\<lambda>v. scan_snapshot_id v = snap_id before_snapshot)
                       (vulnerabilities db2)"
    by (rule filter_key_other [OF other])
  also have "\<dots> = snapshot_vulnerabilities ?db1 before_snapshot"
    using t2 by (simp add: snapshot_vulnerabilities_def)
  also have "\<dots> = snapshot_vulnerabilities db before_snapshot"
    using dist in_db by (rule vulnerabilities_after_delete_other)
  finally have kept: "snapshot_vulnerabilities ?db3 before_snapshot
                        = snapshot_vulnerabilities db before_snapshot" .
  from result chosen(2,3,4) carried after3 before3 kept show ?thesis
    by blast
qed

lemma example_session_ok: "session_ok (example_session n)"
  by (simp add: session_ok_def example_session_def example_vulnerability_def list_all_iff)

lemma example_session_before:
  "first (query_snapshots (example_session n) (pe_id example_event) BEFORE)
     = Some \<lparr>snap_id = 1, patch_event_id = 1, snapshot_type = BEFORE\<rparr>"
  by (simp add: first_def query_snapshots_def example_session_def example_event_def)

lemma example_session_vulnerabilities:
  "snapshot_vulnerabilities (example_session n)
     \<lparr>snap_id = 1, patch_event_id = 1, snapshot_type = BEFORE\<rparr>
     = map (\<lambda>i. example_vulnerability 1 i LOW) [1..<Suc n]"
  by (simp add: snapshot_vulnerabilities_def example_session_def example_vulnerability_def)

lemma example_session_event:
  "find (\<lambda>e. pe_id e = pe_id example_event) (patch_events (example_session n))
     = Some example_event"
  by (simp add: example_session_def)

text \<open>
  C4: from a BEFORE snapshot of 20 vulnerabilities and the ratios 0.3 and 0.7, whatever
  is drawn, the call returns an AFTER snapshot of 6 to 14 vulnerabilities, each a copy
  of a BEFORE record in the six fields carried over.
\<close>

theorem generate_after_snapshot_default_ratios:
  assumes "session_ok db"
    and "first (query_snapshots db (pe_id patch_event) BEFORE) = Some before_snapshot"
    and "length (snapshot_vulnerabilities db before_snapshot) = 20"
  shows "\<exists>snapshot db' rng'.
           generate_after_snapshot db patch_event ratio_0_3 ratio_0_7 rng
             = Inr (snapshot, db', rng')
           \<and> query_snapshots db' (pe_id patch_event) AFTER = [snapshot]
           \<and> 6 \<le> length (snapshot_vulnerabilities db' snapshot)
           \<and> length (snapshot_vulnerabilities db' snapshot) \<le> 14
           \<and> synthetic_id ` set (snapshot_vulnerabilities db' snapshot)
               \<subseteq> synthetic_id ` set (snapshot_vulnerabilities db before_snapshot)
           \<and> finding ` set (snapshot_vulnerabilities db' snapshot)
               \<subseteq> finding ` set (snapshot_vulnerabilities db before_snapshot)
           \<and> mset (map finding (snapshot_vulnerabilities db' snapshot))
               \<subseteq># mset (map finding (snapshot_vulnerabilities db before_snapshot))
           \<and> snapshot_vulnerabilities db' before_snapshot
               = snapshot_vulnerabilities db before_snapshot"
proof -
  let ?before = "snapshot_vulnerabilities db before_snapshot"
  from assms(3) have nonempty: "?before \<noteq> []" by auto
  from assms(3) have bounds: "remaining_bounds (int (length ?before)) ratio_0_3 ratio_0_7
                                = Inr (6, 14)"
    by (simp add: remaining_bounds_defaults)
  from randint_in_range [of 6 14 rng]
  obtain c rng1 where draw: "randint 6 14 rng = Inr (c, rng1)" "6 \<le> c" "c \<le> 14"
    by auto
  from draw assms(3) have fits: "0 \<le> c" "c \<le> int (length ?before)" by simp_all
  from generate_after_snapshot_result [OF assms(1,2) nonempty bounds draw(1) fits]
  obtain snapshot db' rng' chosen where r:
      "generate_after_snapshot db patch_event ratio_0_3 ratio_0_7 rng
         = Inr (snapshot, db', rng')"
      "int (length chosen) = c"
      "set chosen \<subseteq> set ?before"
      "map finding (snapshot_vulnerabilities db' snapshot) = map finding chosen"
      "query_snapshots db' (pe_id patch_event) AFTER = [snapshot]"
      "snapshot_vulnerabilities db' before_snapshot = ?before"
      "mset chosen \<subseteq># mset ?before"
    by blast
  from r(7) have "image_mset finding (mset chosen) \<subseteq># image_mset finding (mset ?before)"
    by (rule image_mset_subseteq_mono)
  with r(4) have distinct_records:
      "mset (map finding (snapshot_vulnerabilities db' snapshot))
         \<subseteq># mset (map finding ?before)"
    by simp
  from r(4) have len: "length (snapshot_vulnerabilities db' snapshot) = length chosen"
    by (rule map_eq_imp_length_eq)
  from r(4) have "finding ` set (snapshot_vulnerabilities db' snapshot) = finding ` set chosen"
    by (metis set_map)
  with r(3) have carried: "finding ` set (snapshot_vulnerabilities db' snapshot)
                             \<subseteq> finding ` set ?before"
    by auto
  have "synthetic_id v = fst (finding v)" for v
    by (simp add: finding_def)
  then have "synthetic_id ` set xs = fst ` finding ` set xs" for xs
    by (simp add: image_image)
  with carried have ids: "synthetic_id ` set (snapshot_vulnerabilities db' snapshot)
                            \<subseteq> synthetic_id ` set ?before"
    by (metis image_mono)
  from len r(2) draw(2,3) have "6 \<le> length (snapshot_vulnerabilities db' snapshot)"
      "length (snapshot_vulnerabilities db' snapshot) \<le> 14"
    by simp_all
  with r(1,5,6) ids carried distinct_records show ?thesis by blast
qed

theorem generate_after_snapshot_default_ratios_witness:
  "session_ok (example_session 20)
   \<and> first (query_snapshots (example_session 20) (pe_id example_event) BEFORE)
       = Some \<lparr>snap_id = 1, patch_event_id = 1, snapshot_type = BEFORE\<rparr>
   \<and> length (snapshot_vulnerabilities (example_session 20)
        \<lparr>snap_id = 1, patch_event_id = 1, snapshot_type = BEFORE\<rparr>) = 20
   \<and> (\<exists>snapshot db' rng'.
         generate_after_snapshot (example_session 20) example_event ratio_0_3 ratio_0_7 [3, 1, 4]
           = Inr (snapshot, db', rng')
         \<and> 6 \<le> length (snapshot_vulnerabilities db' snapshot)
         \<and> length (snapshot_vulnerabilities db' snapshot) \<le> 14)"
proof -
  have a: "session_ok (example_session 20)"
    by (rule example_session_ok)
  have b: "first (query_snapshots (example_session 20) (pe_id example_event) BEFORE)
       = Some \<lparr>snap_id = 1, patch_event_id = 1, snapshot_type = BEFORE\<rparr>"
    by (rule example_session_before)
  have c: "length (snapshot_vulnerabilities (example_session 20)
        \<lparr>snap_id = 1, patch_event_id = 1, snapshot_type = BEFORE\<rparr>) = 20"
    unfolding example_session_vulnerabilities by simp
  from generate_after_snapshot_default_ratios [OF a b c, of "[3, 1, 4]"] a b c
  show ?thesis by blast
qed

text \<open>
  C5: two calls of \<^verbatim>\<open>generate_before_snapshot\<close> in a row, for an event of the database,
  both return; after the second the event has one BEFORE snapshot, the second call's,
  with that call's number of vulnerabilities, and the first call's snapshot is gone
  with all its vulnerabilities.
\<close>

theorem generate_before_snapshot_twice:
  assumes "session_ok db"
    and "find (\<lambda>e. pe_id e = pe_id patch_event) (patch_events db) = Some event"
    and "0 \<le> n2"
  shows "\<exists>s1 db1 rng1 s2 db2 rng2.
           generate_before_snapshot db patch_event n1 rng = Inr (s1, db1, rng1)
           \<and> generate_before_snapshot db1 patch_event n2 rng1 = Inr (s2, db2, rng2)
           \<and> query_snapshots db1 (pe_id patch_event) BEFORE = [s1]
           \<and> length (snapshot_vulnerabilities db1 s1) = nat n1
           \<and> query_snapshots db2 (pe_id patch_event) BEFORE = [s2]
           \<and> int (length (snapshot_vulnerabilities db2 s2)) = n2
           \<and> s1 \<notin> set (scan_snapshots db2)
           \<and> snapshot_vulnerabilities db2 s1 = []
           \<and> query_snapshots db2 (pe_id patch_event) AFTER
               = query_snapshots db (pe_id patch_event) AFTER"
proof -
  from generate_before_snapshot_ok [OF assms(1,2), of n1 rng]
  obtain s1 db1 rng1 where first_call:
      "generate_before_snapshot db patch_event n1 rng = Inr (s1, db1, rng1)"
      "session_ok db1"
      "patch_events db1 = patch_events db"
      "query_snapshots db1 (pe_id patch_event) BEFORE = [s1]"
      "query_snapshots db1 (pe_id patch_event) AFTER
         = query_snapshots db (pe_id patch_event) AFTER"
      "length (snapshot_vulnerabilities db1 s1) = nat n1"
    by blast
  from first_call(3) assms(2)
  have "find (\<lambda>e. pe_id e = pe_id patch_event) (patch_events db1) = Some event"
    by simp
  from generate_before_snapshot_ok [OF first_call(2) this, of n2 rng1]
  obtain s2 db2 rng2 where second_call:
      "generate_before_snapshot db1 patch_event n2 rng1 = Inr (s2, db2, rng2)"
      "query_snapshots db2 (pe_id patch_event) BEFORE = [s2]"
      "query_snapshots db2 (pe_id patch_event) AFTER
         = query_snapshots db1 (pe_id patch_event) AFTER"
      "length (snapshot_vulnerabilities db2 s2) = nat n2"
      "list_all (\<lambda>s. s \<notin> set (scan_snapshots db2) \<and> snapshot_vulnerabilities db2 s = [])
         (query_snapshots db1 (pe_id patch_event) BEFORE)"
    by blast
  from second_call(5) first_call(4)
  have gone: "s1 \<notin> set (scan_snapshots db2)" "snapshot_vulnerabilities db2 s1 = []"
    by simp_all
  from second_call(4) assms(3) have "int (length (snapshot_vulnerabilities db2 s2)) = n2"
    by simp
  with first_call(1,4,5,6) second_call(1,2,3) gone show ?thesis
    by (intro exI [of _ s1] exI [of _ db1] exI [of _ rng1]
        exI [of _ s2] exI [of _ db2] exI [of _ rng2]) simp
qed

theorem generate_before_snapshot_twice_witness:
  "session_ok (example_session 2)
   \<and> find (\<lambda>e. pe_id e = pe_id example_event) (patch_events (example_session 2))
       = Some example_event
   \<and> (0::int) \<le> 5
   \<and> (\<exists>s1 db1 rng1 s2 db2 rng2.
         generate_before_snapshot (example_session 2) example_event 3 [] = Inr (s1, db1, rng1)
         \<and> generate_before_snapshot db1 example_event 5 rng1 = Inr (s2, db2, rng2)
         \<and> query_snapshots db2 (pe_id example_event) BEFORE = [s2]
         \<and> int (length (snapshot_vulnerabilities db2 s2)) = 5
         \<and> s1 \<notin> set (scan_snapshots db2)
         \<and> snapshot_vulnerabilities db2 s1 = [])"
proof -
  have a: "session_ok (example_session 2)"
    by (rule example_session_ok)
  have b: "find (\<lambda>e. pe_id e = pe_id example_event) (patch_events (example_session 2))
       = Some example_event"
    by (rule example_session_event)
  have c: "(0::int) \<le> 5" by simp
  from generate_before_snapshot_twice [OF a b c, of 3 "[]"] a b c
  show ?thesis by blast
qed

lemma remaining_bounds_two_three:
  "remaining_bounds 1 (Finite 2 0) (Finite 3 0) = Inr (2, 3)"
  by (simp add: remaining_bounds_def int_times_float_def float_of_int_def to_double_def
      bit_length_def round_half_even_def Let_def)

lemma remaining_bounds_halves:
  "remaining_bounds 2 (Finite (- 1) (- 1)) (Finite 1 (- 1)) = Inr (1, 1)"
  by (simp add: remaining_bounds_def int_times_float_def float_of_int_def to_double_def
      bit_length_def round_half_even_def Let_def)

lemma generate_after_snapshot_sample_raises:
  assumes "session_ok db"
    and "first (query_snapshots db (pe_id patch_event) BEFORE) = Some before_snapshot"
    and "snapshot_vulnerabilities db before_snapshot \<noteq> []"
    and "remaining_bounds (int (length (snapshot_vulnerabilities db before_snapshot)))
           r1 r2 = Inr (lo, hi)"
    and "int (length (snapshot_vulnerabilities db before_snapshot)) < lo"
  shows "generate_after_snapshot db patch_event r1 r2 rng
           = Inl (ValueError ''Sample larger than population or is negative'')"
proof -
  from assms(4) have "lo \<le> hi"
    using remaining_bounds_clamped by blast
  from randint_in_range [OF this, of rng]
  obtain c rng1 where draw: "randint lo hi rng = Inr (c, rng1)" "lo \<le> c"
    by auto
  with assms(5) have "int (length (snapshot_vulnerabilities db before_snapshot)) < c"
    by simp
  then have "sample (snapshot_vulnerabilities db before_snapshot) c rng1
               = Inl (ValueError ''Sample larger than population or is negative'')"
    by (rule sample_too_large)
  with assms(4) draw(1) show ?thesis
    by (simp add: generate_after_snapshot_carry [OF assms(1,2,3)])
qed

text \<open>
  C6, as stated, fails: with one BEFORE vulnerability and the ratios 2.0 and 3.0 the
  bounds are 2 and 3, more than the snapshot holds, and \<^verbatim>\<open>random.sample\<close> raises.
\<close>

theorem generate_after_snapshot_raises_counterexample:
  "first (query_snapshots (example_session 1) (pe_id example_event) BEFORE)
     = Some \<lparr>snap_id = 1, patch_event_id = 1, snapshot_type = BEFORE\<rparr>
   \<and> length (snapshot_vulnerabilities (example_session 1)
        \<lparr>snap_id = 1, patch_event_id = 1, snapshot_type = BEFORE\<rparr>) = 1
   \<and> generate_after_snapshot (example_session 1) example_event (Finite 2 0) (Finite 3 0) []
       = Inl (ValueError ''Sample larger than population or is negative'')"
proof -
  let ?bs = "\<lparr>snap_id = 1, patch_event_id = 1, snapshot_type = BEFORE\<rparr>"
  have len: "length (snapshot_vulnerabilities (example_session 1) ?bs) = 1"
    unfolding example_session_vulnerabilities by simp
  then have nonempty: "snapshot_vulnerabilities (example_session 1) ?bs \<noteq> []"
    by auto
  have bounds: "remaining_bounds
                  (int (length (snapshot_vulnerabilities (example_session 1) ?bs)))
                  (Finite 2 0) (Finite 3 0) = Inr (2, 3)"
    unfolding len by (simp add: remaining_bounds_two_three)
  have "int (length (snapshot_vulnerabilities (example_session 1) ?bs)) < 2"
    unfolding len by simp
  from generate_after_snapshot_sample_raises
    [OF example_session_ok example_session_before nonempty bounds this]
  have "generate_after_snapshot (example_session 1) example_event (Finite 2 0) (Finite 3 0) []
       = Inl (ValueError ''Sample larger than population or is negative'')" .
  with len example_session_before [of 1] show ?thesis by simp
qed

text \<open>
  C6, amended: whenever the two bounds are computed (no product of the count and a
  ratio is infinite or not a number), they satisfy \<open>1 \<le> min_remaining \<le> max_remaining\<close>.
  The call returns, with a count between the bounds, whenever \<open>max_remaining\<close> is at
  most the number of BEFORE vulnerabilities; for ratios that are negative or zero both
  bounds are 1, so it returns. The bounds are not clamped from above: when
  \<open>min_remaining\<close> exceeds the number of BEFORE vulnerabilities, \<^verbatim>\<open>random.sample\<close>
  raises \<^verbatim>\<open>ValueError\<close>, whatever is drawn.
\<close>

theorem generate_after_snapshot_bounds:
  assumes "session_ok db"
    and "first (query_snapshots db (pe_id patch_event) BEFORE) = Some before_snapshot"
    and "snapshot_vulnerabilities db before_snapshot \<noteq> []"
    and "remaining_bounds (int (length (snapshot_vulnerabilities db before_snapshot)))
           min_remaining_ratio max_remaining_ratio = Inr (min_remaining, max_remaining)"
  shows "1 \<le> min_remaining \<and> min_remaining \<le> max_remaining
     \<and> (max_remaining \<le> int (length (snapshot_vulnerabilities db before_snapshot)) \<longrightarrow>
          (\<exists>snapshot db' rng'.
             generate_after_snapshot db patch_event min_remaining_ratio max_remaining_ratio rng
               = Inr (snapshot, db', rng')
             \<and> min_remaining \<le> int (length (snapshot_vulnerabilities db' snapshot))
             \<and> int (length (snapshot_vulnerabilities db' snapshot)) \<le> max_remaining))
     \<and> (float_le_zero min_remaining_ratio \<and> float_le_zero max_remaining_ratio \<longrightarrow>
          min_remaining = 1 \<and> max_remaining = 1
          \<and> max_remaining \<le> int (length (snapshot_vulnerabilities db before_snapshot)))
     \<and> (int (length (snapshot_vulnerabilities db before_snapshot)) < min_remaining \<longrightarrow>
          generate_after_snapshot db patch_event min_remaining_ratio max_remaining_ratio rng
            = Inl (ValueError ''Sample larger than population or is negative''))"
proof -
  let ?before = "snapshot_vulnerabilities db before_snapshot"
  from assms(4) have clamped: "1 \<le> min_remaining" "min_remaining \<le> max_remaining"
    using remaining_bounds_clamped by blast+
  from randint_in_range [OF clamped(2), of rng]
  obtain c rng1 where draw: "randint min_remaining max_remaining rng = Inr (c, rng1)"
      "min_remaining \<le> c" "c \<le> max_remaining"
    by auto
  have returns: "\<exists>snapshot db' rng'.
             generate_after_snapshot db patch_event min_remaining_ratio max_remaining_ratio rng
               = Inr (snapshot, db', rng')
             \<and> min_remaining \<le> int (length (snapshot_vulnerabilities db' snapshot))
             \<and> int (length (snapshot_vulnerabilities db' snapshot)) \<le> max_remaining"
    if "max_remaining \<le> int (length ?before)"
  proof -
    from that draw clamped have fits: "0 \<le> c" "c \<le> int (length ?before)" by simp_all
    from generate_after_snapshot_result [OF assms draw(1) fits]
    obtain snapshot db' rng' chosen where r:
        "generate_after_snapshot db patch_event min_remaining_ratio max_remaining_ratio rng
           = Inr (snapshot, db', rng')"
        "int (length chosen) = c"
        "map finding (snapshot_vulnerabilities db' snapshot) = map finding chosen"
      by blast
    from r(3) have "length (snapshot_vulnerabilities db' snapshot) = length chosen"
      by (rule map_eq_imp_length_eq)
    with r(1,2) draw(2,3) show ?thesis by auto
  qed
  have ones: "min_remaining = 1 \<and> max_remaining = 1
          \<and> max_remaining \<le> int (length ?before)"
    if "float_le_zero min_remaining_ratio \<and> float_le_zero max_remaining_ratio"
  proof -
    from that remaining_bounds_nonpositive_ratios [OF assms(4)]
    have "min_remaining = 1 \<and> max_remaining = 1" by simp
    moreover from assms(3) have "1 \<le> int (length ?before)"
      by (cases ?before) simp_all
    ultimately show ?thesis by simp
  qed
  have raises: "generate_after_snapshot db patch_event min_remaining_ratio max_remaining_ratio rng
            = Inl (ValueError ''Sample larger than population or is negative'')"
    if "int (length ?before) < min_remaining"
    using assms that by (rule generate_after_snapshot_sample_raises)
  from clamped returns ones raises show ?thesis by blast
qed

theorem generate_after_snapshot_bounds_witness:
  "session_ok (example_session 2)
   \<and> first (query_snapshots (example_session 2) (pe_id example_event) BEFORE)
       = Some \<lparr>snap_id = 1, patch_event_id = 1, snapshot_type = BEFORE\<rparr>
   \<and> snapshot_vulnerabilities (example_session 2)
        \<lparr>snap_id = 1, patch_event_id = 1, snapshot_type = BEFORE\<rparr> \<noteq> []
   \<and> remaining_bounds
        (int (length (snapshot_vulnerabilities (example_session 2)
           \<lparr>snap_id = 1, patch_event_id = 1, snapshot_type = BEFORE\<rparr>)))
        (Finite (- 1) (- 1)) (Finite 1 (- 1)) = Inr (1, 1)
   \<and> (\<exists>snapshot db' rng'.
         generate_after_snapshot (example_session 2) example_event
           (Finite (- 1) (- 1)) (Finite 1 (- 1)) [7] = Inr (snapshot, db', rng')
         \<and> int (length (snapshot_vulnerabilities db' snapshot)) = 1)
   \<and> float_le_zero (Finite (- 1) (- 1)) \<and> float_le_zero (Finite 0 0)
   \<and> remaining_bounds
        (int (length (snapshot_vulnerabilities (example_session 2)
           \<lparr>snap_id = 1, patch_event_id = 1, snapshot_type = BEFORE\<rparr>)))
        (Finite (- 1) (- 1)) (Finite 0 0) = Inr (1, 1)
   \<and> remaining_bounds
        (int (length (snapshot_vulnerabilities (example_session 1)
           \<lparr>snap_id = 1, patch_event_id = 1, snapshot_type = BEFORE\<rparr>)))
        (Finite 2 0) (Finite 3 0) = Inr (2, 3)
   \<and> generate_after_snapshot (example_session 1) example_event (Finite 2 0) (Finite 3 0) [7]
       = Inl (ValueError ''Sample larger than population or is negative'')"
proof -
  let ?bs = "\<lparr>snap_id = 1, patch_event_id = 1, snapshot_type = BEFORE\<rparr>"
  have len2: "int (length (snapshot_vulnerabilities (example_session 2) ?bs)) = 2"
    unfolding example_session_vulnerabilities by simp
  have len1: "int (length (snapshot_vulnerabilities (example_session 1) ?bs)) = 1"
    unfolding example_session_vulnerabilities by simp
  have ne2: "snapshot_vulnerabilities (example_session 2) ?bs \<noteq> []"
    using len2 by auto
  have ne1: "snapshot_vulnerabilities (example_session 1) ?bs \<noteq> []"
    using len1 by auto
  have b2: "remaining_bounds (int (length (snapshot_vulnerabilities (example_session 2) ?bs)))
              (Finite (- 1) (- 1)) (Finite 1 (- 1)) = Inr (1, 1)"
    unfolding len2 by (rule remaining_bounds_halves)
  have z2: "remaining_bounds (int (length (snapshot_vulnerabilities (example_session 2) ?bs)))
              (Finite (- 1) (- 1)) (Finite 0 0) = Inr (1, 1)"
    unfolding len2
    by (simp add: remaining_bounds_def int_times_float_def float_of_int_def to_double_def
        bit_length_def round_half_even_def Let_def)
  have b1: "remaining_bounds (int (length (snapshot_vulnerabilities (example_session 1) ?bs)))
              (Finite 2 0) (Finite 3 0) = Inr (2, 3)"
    unfolding len1 by (rule remaining_bounds_two_three)
  note w2 = generate_after_snapshot_bounds
    [OF example_session_ok example_session_before ne2 b2, of "[7]"]
  note w1 = generate_after_snapshot_bounds
    [OF example_session_ok example_session_before ne1 b1, of "[7]"]
  note wz = generate_after_snapshot_bounds
    [OF example_session_ok example_session_before ne2 z2, of "[7]"]
  have returns: "\<exists>snapshot db' rng'.
         generate_after_snapshot (example_session 2) example_event
           (Finite (- 1) (- 1)) (Finite 1 (- 1)) [7] = Inr (snapshot, db', rng')
         \<and> int (length (snapshot_vulnerabilities db' snapshot)) = 1"
  proof -
    from w2 len2 obtain snapshot db' rng' where r:
        "generate_after_snapshot (example_session 2) example_event
           (Finite (- 1) (- 1)) (Finite 1 (- 1)) [7] = Inr (snapshot, db', rng')"
        "1 \<le> int (length (snapshot_vulnerabilities db' snapshot))"
        "int (length (snapshot_vulnerabilities db' snapshot)) \<le> 1"
      by auto
    from r(2,3) have "int (length (snapshot_vulnerabilities db' snapshot)) = 1"
      by simp
    with r(1) show ?thesis by blast
  qed
  have raises: "generate_after_snapshot (example_session 1) example_event
                  (Finite 2 0) (Finite 3 0) [7]
       = Inl (ValueError ''Sample larger than population or is negative'')"
    using w1 len1 by simp
  from wz have "float_le_zero (Finite (- 1) (- 1)) \<and> float_le_zero (Finite 0 0)" by simp
  with example_session_ok [of 2] example_session_before [of 2] ne2 b2 z2 b1 returns raises
  show ?thesis by blast
qed

end
